theory Spec2Isabelle
  imports Complex_Main
begin

section \<open>Generator derating monitor (auto\_current.py)\<close>

text \<open>
  A shallow embedding of \<^verbatim>\<open>GeneratorDeratingMonitor\<close>. Python floats are modelled
  as exact reals (no rounding error, no NaN or infinity); the one rounding the program
  performs itself, \<^verbatim>\<open>round(x, 1)\<close>, is modelled as round-half-even to one decimal.
  The D-Bus is a store of values addressed by service name and path; a read that raises
  is the value \<open>None\<close>, exactly as \<^verbatim>\<open>_get_dbus_value\<close> turns it into \<^verbatim>\<open>None\<close>.
  A Python exception that is not caught inside a method is an outcome \<open>Raised e\<close>,
  returned together with the object state reached when it was raised.
\<close>

subsection \<open>Values on the bus\<close>

text \<open>
  The values \<^verbatim>\<open>GetValue()\<close> returns on the numeric paths the monitor reads: a D-Bus
  integer, a D-Bus double, or a D-Bus array (the bus encodes an invalid value as an
  empty array).
\<close>

datatype dval = DInt int | DDouble real | DArray "dval list"

datatype error = TypeError | ValueError

datatype outcome = Done | Raised error

text \<open>\<^verbatim>\<open>float(v)\<close>: a number converts, an array raises TypeError.\<close>

fun py_float :: "dval \<Rightarrow> error + real" where
  "py_float (DInt i) = Inr (of_int i)"
| "py_float (DDouble r) = Inr r"
| "py_float (DArray xs) = Inl TypeError"

text \<open>\<^verbatim>\<open>int(v)\<close>: truncation towards zero on a double, TypeError on an array.\<close>

fun py_int :: "dval \<Rightarrow> error + int" where
  "py_int (DInt i) = Inr i"
| "py_int (DDouble r) = Inr (if 0 \<le> r then \<lfloor>r\<rfloor> else \<lceil>r\<rceil>)"
| "py_int (DArray xs) = Inl TypeError"

text \<open>
  \<^verbatim>\<open>v - x\<close> for a raw bus value \<open>v\<close> and a float \<open>x\<close>: a list has no subtraction.
\<close>

fun py_sub :: "dval \<Rightarrow> real \<Rightarrow> error + real" where
  "py_sub (DInt i) x = Inr (of_int i - x)"
| "py_sub (DDouble r) x = Inr (r - x)"
| "py_sub (DArray xs) x = Inl TypeError"

text \<open>
  \<^verbatim>\<open>(temp_celsius * 9/5) + 32\<close>: on an array, \<^verbatim>\<open>* 9\<close> repeats the list and
  \<^verbatim>\<open>/ 5\<close> raises TypeError.
\<close>

fun celsius_to_fahrenheit :: "dval \<Rightarrow> error + real" where
  "celsius_to_fahrenheit (DInt i) = Inr (of_int i * 9 / 5 + 32)"
| "celsius_to_fahrenheit (DDouble r) = Inr (r * 9 / 5 + 32)"
| "celsius_to_fahrenheit (DArray xs) = Inl TypeError"

text \<open>\<^verbatim>\<open>state in GENERATOR_ON_VALUE\<close> with \<^verbatim>\<open>GENERATOR_ON_VALUE = (12, 3)\<close>.\<close>

fun in_GENERATOR_ON_VALUE :: "dval option \<Rightarrow> bool" where
  "in_GENERATOR_ON_VALUE None = False"
| "in_GENERATOR_ON_VALUE (Some (DInt i)) = (i = 12 \<or> i = 3)"
| "in_GENERATOR_ON_VALUE (Some (DDouble r)) = (r = 12 \<or> r = 3)"
| "in_GENERATOR_ON_VALUE (Some (DArray xs)) = False"

text \<open>\<^verbatim>\<open>round(x, 1)\<close>: to the nearest tenth, a tie going to the even tenth.\<close>

definition py_round1 :: "real \<Rightarrow> real" where
  "py_round1 x =
     (let y = x * 10; f = \<lfloor>y\<rfloor>; d = y - of_int f
      in (if d < 1 / 2 then of_int f
          else if 1 / 2 < d then of_int (f + 1)
          else if even f then of_int f else of_int (f + 1)) / 10)"

subsection \<open>Constants\<close>

definition SETTINGS_SERVICE_NAME :: string where
  "SETTINGS_SERVICE_NAME = ''com.victronenergy.settings''"

definition ALTITUDE_PATH :: string where
  "ALTITUDE_PATH = ''/Altitude''"

definition AC_ACTIVE_INPUT_CURRENT_LIMIT_PATH :: string where
  "AC_ACTIVE_INPUT_CURRENT_LIMIT_PATH = ''/Ac/ActiveIn/CurrentLimit''"

definition TEMPERATURE_PATH :: string where
  "TEMPERATURE_PATH = ''/Temperature''"

definition STATE_PATH :: string where
  "STATE_PATH = ''/State''"

definition GENERATOR_CURRENT_LIMIT_PATH :: string where
  "GENERATOR_CURRENT_LIMIT_PATH = ''/Settings/TransferSwitch/GeneratorCurrentLimit''"

definition GEN_AUTO_CURRENT_OFF :: int where
  "GEN_AUTO_CURRENT_OFF = 2"

definition GEN_AUTO_CURRENT_ON :: int where
  "GEN_AUTO_CURRENT_ON = 3"

definition BASE_TEMPERATURE_THRESHOLD_F :: real where
  "BASE_TEMPERATURE_THRESHOLD_F = 77.0"

definition TEMP_COEFFICIENT :: real where
  "TEMP_COEFFICIENT = 0.0065"

definition ALTITUDE_COEFFICIENT :: real where
  "ALTITUDE_COEFFICIENT = 0.00003"

definition BASE_GENERATOR_OUTPUT_AMPS :: real where
  "BASE_GENERATOR_OUTPUT_AMPS = 62.5"

definition OUTPUT_BUFFER :: real where
  "OUTPUT_BUFFER = 0.9"

definition HIGH_GENTEMP_THRESHOLD_F :: real where
  "HIGH_GENTEMP_THRESHOLD_F = 222.0"

definition MEDIUM_GENTEMP_THRESHOLD_F :: real where
  "MEDIUM_GENTEMP_THRESHOLD_F = 215.0"

definition HIGH_GENTEMP_REDUCTION :: real where
  "HIGH_GENTEMP_REDUCTION = 0.86"

definition MEDIUM_GENTEMP_REDUCTION :: real where
  "MEDIUM_GENTEMP_REDUCTION = 0.93"

definition DEFAULT_ALTITUDE_FEET :: real where
  "DEFAULT_ALTITUDE_FEET = 1000.0"

definition DEFAULT_GENERATOR_TEMP_F :: real where
  "DEFAULT_GENERATOR_TEMP_F = 180.0"

definition DEFAULT_OUTDOOR_TEMP_F :: real where
  "DEFAULT_OUTDOOR_TEMP_F = 77.0"

subsection \<open>The derating calculator\<close>

definition calculate_derating_factor :: "real option \<Rightarrow> real option \<Rightarrow> real option \<Rightarrow> real" where
  "calculate_derating_factor temperature_fahrenheit altitude_feet generator_temperature_fahrenheit =
     (let temperature_multiplier =
            (case temperature_fahrenheit of
               None \<Rightarrow> 1
             | Some t \<Rightarrow>
                 if t > BASE_TEMPERATURE_THRESHOLD_F
                 then max 0 (1 - (t - BASE_TEMPERATURE_THRESHOLD_F) * TEMP_COEFFICIENT)
                 else 1);
          altitude_multiplier =
            (case altitude_feet of
               None \<Rightarrow> 1
             | Some a \<Rightarrow> max 0 (1 - a * ALTITUDE_COEFFICIENT));
          generator_temp_multiplier =
            (case generator_temperature_fahrenheit of
               None \<Rightarrow> 1
             | Some g \<Rightarrow>
                 if g \<ge> HIGH_GENTEMP_THRESHOLD_F then HIGH_GENTEMP_REDUCTION
                 else if g \<ge> MEDIUM_GENTEMP_THRESHOLD_F then MEDIUM_GENTEMP_REDUCTION
                 else 1)
      in temperature_multiplier * altitude_multiplier * generator_temp_multiplier * OUTPUT_BUFFER)"

subsection \<open>The bus\<close>

text \<open>
  The logical roles the six \<^verbatim>\<open>_find_*\<close> methods search for. The search itself
  (listing the bus names and probing \<^verbatim>\<open>/CustomName\<close> and \<^verbatim>\<open>/ProductName\<close>)
  belongs to the bus: \<open>resolve\<close> gives the service name a search would select now.
\<close>

datatype role = Vebus | OutdoorTemp | GeneratorTemp | Gps | TransferSwitch | GenAutoCurrent

text \<open>
  \<open>vals\<close> is what \<^verbatim>\<open>GetValue()\<close> returns at a service and path (\<open>None\<close>: the
  call raises); \<open>accepts\<close> tells whether \<^verbatim>\<open>SetValue()\<close> there succeeds (otherwise it
  raises and the stored value stays); \<open>write_log\<close> lists the \<^verbatim>\<open>SetValue()\<close> calls
  issued so far, oldest first.
\<close>

record bus =
  resolve :: "role \<Rightarrow> string option"
  vals :: "string \<times> string \<Rightarrow> dval option"
  accepts :: "string \<times> string \<Rightarrow> bool"
  write_log :: "(string \<times> string \<times> real) list"

text \<open>Python truth value of a service-name attribute: \<^verbatim>\<open>None\<close> and \<^verbatim>\<open>""\<close> are false.\<close>

definition truthy :: "string option \<Rightarrow> bool" where
  "truthy service_name = (case service_name of None \<Rightarrow> False | Some n \<Rightarrow> n \<noteq> [])"

definition get_dbus_value :: "bus \<Rightarrow> string option \<Rightarrow> string \<Rightarrow> dval option" where
  "get_dbus_value b service_name path =
     (case service_name of
        None \<Rightarrow> None
      | Some n \<Rightarrow> if n = [] then None else vals b (n, path))"

definition set_dbus_value :: "bus \<Rightarrow> string option \<Rightarrow> string \<Rightarrow> real \<Rightarrow> bus" where
  "set_dbus_value b service_name path v =
     (case service_name of
        None \<Rightarrow> b
      | Some n \<Rightarrow>
          if n = [] then b
          else b\<lparr>vals := (if accepts b (n, path) then (vals b)((n, path) \<mapsto> DDouble v) else vals b),
                 write_log := write_log b @ [(n, path, v)]\<rparr>)"

subsection \<open>The monitor object\<close>

record mstate =
  vebus_service :: "string option"
  outdoor_temp_service_name :: "string option"
  generator_temp_service_name :: "string option"
  gps_service_name :: "string option"
  transfer_switch_service :: "string option"
  gen_auto_current_service :: "string option"
  gen_auto_current_state :: "int option"
  previous_gen_auto_current_state :: "int option"
  initial_derated_output_logged :: bool
  initial_altitude :: "real option"
  initial_outdoor_temp :: "real option"
  initial_generator_temp :: "real option"
  previous_ac_current_limit :: "real option"
  previous_generator_current_limit_setting :: "real option"
  outdoor_temp_fahrenheit :: "real option"
  altitude_feet :: "real option"
  generator_temp_fahrenheit :: "real option"
  altitude_warning_logged :: bool
  altitude_value_logged_after_warning :: bool

text \<open>\<^verbatim>\<open>__init__\<close>.\<close>

definition init_state :: mstate where
  "init_state =
     \<lparr>vebus_service = None,
      outdoor_temp_service_name = None,
      generator_temp_service_name = None,
      gps_service_name = None,
      transfer_switch_service = None,
      gen_auto_current_service = None,
      gen_auto_current_state = None,
      previous_gen_auto_current_state = None,
      initial_derated_output_logged = False,
      initial_altitude = None,
      initial_outdoor_temp = None,
      initial_generator_temp = None,
      previous_ac_current_limit = None,
      previous_generator_current_limit_setting = None,
      outdoor_temp_fahrenheit = Some DEFAULT_OUTDOOR_TEMP_F,
      altitude_feet = Some DEFAULT_ALTITUDE_FEET,
      generator_temp_fahrenheit = Some DEFAULT_GENERATOR_TEMP_F,
      altitude_warning_logged = False,
      altitude_value_logged_after_warning = False\<rparr>"

text \<open>
  A method takes the bus and the object and returns how it ended, the bus and the object.
  \<open>run_statements\<close> is a block of statements: the first one that raises ends the block.
\<close>

type_synonym result = "outcome \<times> bus \<times> mstate"

fun run_statements :: "(bus \<Rightarrow> mstate \<Rightarrow> result) list \<Rightarrow> bus \<Rightarrow> mstate \<Rightarrow> result" where
  "run_statements [] b s = (Done, b, s)"
| "run_statements (f # fs) b s =
     (case f b s of
        (Done, b', s') \<Rightarrow> run_statements fs b' s'
      | (Raised e, b', s') \<Rightarrow> (Raised e, b', s'))"

subsection \<open>Discovery\<close>

definition find_vebus_service :: "bus \<Rightarrow> mstate \<Rightarrow> mstate" where
  "find_vebus_service b s = s\<lparr>vebus_service := resolve b Vebus\<rparr>"

definition find_outdoor_temperature_service :: "bus \<Rightarrow> mstate \<Rightarrow> mstate" where
  "find_outdoor_temperature_service b s = s\<lparr>outdoor_temp_service_name := resolve b OutdoorTemp\<rparr>"

definition find_generator_temperature_service :: "bus \<Rightarrow> mstate \<Rightarrow> mstate" where
  "find_generator_temperature_service b s =
     s\<lparr>generator_temp_service_name := resolve b GeneratorTemp\<rparr>"

definition find_gps_service_internal :: "bus \<Rightarrow> mstate \<Rightarrow> mstate" where
  "find_gps_service_internal b s = s\<lparr>gps_service_name := resolve b Gps\<rparr>"

definition find_transfer_switch_input_internal :: "bus \<Rightarrow> mstate \<Rightarrow> mstate" where
  "find_transfer_switch_input_internal b s = s\<lparr>transfer_switch_service := resolve b TransferSwitch\<rparr>"

definition find_gen_auto_current_input_internal :: "bus \<Rightarrow> mstate \<Rightarrow> mstate" where
  "find_gen_auto_current_input_internal b s =
     s\<lparr>gen_auto_current_service := resolve b GenAutoCurrent\<rparr>"

text \<open>
  \<^verbatim>\<open>_find_service_once\<close>: run the search, then report whether the attribute is set.
\<close>

definition find_service_once ::
  "(bus \<Rightarrow> mstate \<Rightarrow> mstate) \<Rightarrow> (mstate \<Rightarrow> string option) \<Rightarrow> bus \<Rightarrow> mstate \<Rightarrow> bool \<times> mstate" where
  "find_service_once find_function service_name_attribute b s =
     (let s' = find_function b s in (truthy (service_name_attribute s'), s'))"

subsection \<open>Sensor updates\<close>

definition update_outdoor_temperature :: "bool \<Rightarrow> bool \<Rightarrow> bus \<Rightarrow> mstate \<Rightarrow> result" where
  "update_outdoor_temperature log_update log_initial b s =
     (if truthy (outdoor_temp_service_name s) then
        (case get_dbus_value b (outdoor_temp_service_name s) TEMPERATURE_PATH of
           Some temp_celsius \<Rightarrow>
             (case celsius_to_fahrenheit temp_celsius of
                Inl e \<Rightarrow> (Raised e, b, s)
              | Inr f \<Rightarrow>
                  (let s1 = s\<lparr>outdoor_temp_fahrenheit := Some f\<rparr>
                   in if log_initial \<and> initial_outdoor_temp s1 = None
                      then (Done, b, s1\<lparr>initial_outdoor_temp := outdoor_temp_fahrenheit s1\<rparr>)
                      else (Done, b, s1)))
         | None \<Rightarrow> (Done, b, s))
      else (Done, b, s))"

text \<open>
  In \<^verbatim>\<open>_update_altitude\<close> the conversion sits inside
  \<^verbatim>\<open>try ... except (ValueError, TypeError)\<close>, so a value that does not convert only
  sets the warning flags.
\<close>

definition altitude_failed :: "mstate \<Rightarrow> mstate" where
  "altitude_failed s =
     (if \<not> altitude_warning_logged s
      then s\<lparr>altitude_warning_logged := True, altitude_value_logged_after_warning := False\<rparr>
      else s\<lparr>altitude_value_logged_after_warning := False\<rparr>)"

definition altitude_store :: "bool \<Rightarrow> bool \<Rightarrow> real \<Rightarrow> mstate \<Rightarrow> mstate" where
  "altitude_store log_update log_initial altitude_meters s =
     (let s1 = s\<lparr>altitude_feet := Some (altitude_meters * 3.28084)\<rparr>
      in if log_initial \<and> initial_altitude s1 = None
         then s1\<lparr>initial_altitude := altitude_feet s1\<rparr>
         else if log_update
         then (if altitude_warning_logged s1 \<or> \<not> altitude_value_logged_after_warning s1
               then s1\<lparr>altitude_warning_logged := False, altitude_value_logged_after_warning := True\<rparr>
               else s1)
         else s1)"

definition update_altitude :: "bool \<Rightarrow> bool \<Rightarrow> bus \<Rightarrow> mstate \<Rightarrow> result" where
  "update_altitude log_update log_initial b s =
     (if truthy (gps_service_name s) then
        (case get_dbus_value b (gps_service_name s) ALTITUDE_PATH of
           Some altitude_raw \<Rightarrow>
             (case altitude_raw of
                DArray xs \<Rightarrow>
                  (case xs of
                     [] \<Rightarrow> (Done, b, altitude_failed s)
                   | x # _ \<Rightarrow>
                       (case py_float x of
                          Inl e \<Rightarrow> (Done, b, altitude_failed s)
                        | Inr altitude_meters \<Rightarrow>
                            (Done, b, altitude_store log_update log_initial altitude_meters s)))
              | _ \<Rightarrow>
                  (case py_float altitude_raw of
                     Inl e \<Rightarrow> (Done, b, altitude_failed s)
                   | Inr altitude_meters \<Rightarrow>
                       (Done, b, altitude_store log_update log_initial altitude_meters s)))
         | None \<Rightarrow> (Done, b, altitude_failed s))
      else (Done, b, s\<lparr>altitude_value_logged_after_warning := False\<rparr>))"

definition update_generator_temperature :: "bool \<Rightarrow> bool \<Rightarrow> bus \<Rightarrow> mstate \<Rightarrow> result" where
  "update_generator_temperature log_update log_initial b s =
     (if truthy (generator_temp_service_name s) then
        (case get_dbus_value b (generator_temp_service_name s) TEMPERATURE_PATH of
           Some temp_celsius \<Rightarrow>
             (case celsius_to_fahrenheit temp_celsius of
                Inl e \<Rightarrow> (Raised e, b, s)
              | Inr f \<Rightarrow>
                  (let s1 = s\<lparr>generator_temp_fahrenheit := Some f\<rparr>
                   in if log_initial \<and> initial_generator_temp s1 = None
                      then (Done, b, s1\<lparr>initial_generator_temp := generator_temp_fahrenheit s1\<rparr>)
                      else (Done, b, s1)))
         | None \<Rightarrow> (Done, b, s))
      else (Done, b, s))"

definition update_gen_auto_current_state :: "bool \<Rightarrow> bus \<Rightarrow> mstate \<Rightarrow> result" where
  "update_gen_auto_current_state initial_read b s =
     (if truthy (gen_auto_current_service s) then
        (case get_dbus_value b (gen_auto_current_service s) STATE_PATH of
           Some raw \<Rightarrow>
             (case py_int raw of
                Inl e \<Rightarrow> (Raised e, b, s)
              | Inr state \<Rightarrow>
                  if initial_read
                  then (Done, b, s\<lparr>gen_auto_current_state := Some state,
                                   previous_gen_auto_current_state := Some state\<rparr>)
                  else if Some state \<noteq> previous_gen_auto_current_state s
                  then (Done, b, s\<lparr>previous_gen_auto_current_state := gen_auto_current_state s,
                                   gen_auto_current_state := Some state\<rparr>)
                  else (Done, b, s\<lparr>gen_auto_current_state := Some state\<rparr>))
         | None \<Rightarrow> (Done, b, s))
      else (Done, b, s))"

definition is_generator_running :: "bus \<Rightarrow> mstate \<Rightarrow> bool" where
  "is_generator_running b s =
     (if truthy (transfer_switch_service s)
      then in_GENERATOR_ON_VALUE (get_dbus_value b (transfer_switch_service s) STATE_PATH)
      else False)"

subsection \<open>The limit synchronizer\<close>

text \<open>\<^verbatim>\<open>abs(x) > 0.01\<close>, the tolerance of every comparison.\<close>

definition differs :: "real \<Rightarrow> bool" where
  "differs d = (\<bar>d\<bar> > 0.01)"

definition perform_derating :: "bus \<Rightarrow> mstate \<Rightarrow> result" where
  "perform_derating b s =
     (if outdoor_temp_fahrenheit s \<noteq> None \<and> altitude_feet s \<noteq> None
         \<and> generator_temp_fahrenheit s \<noteq> None
      then
        (let derating_factor =
               calculate_derating_factor (outdoor_temp_fahrenheit s) (altitude_feet s)
                 (generator_temp_fahrenheit s);
             derated_output_amps = BASE_GENERATOR_OUTPUT_AMPS * derating_factor;
             rounded_output = py_round1 derated_output_amps;
             current_generator_limit_setting =
               get_dbus_value b (Some SETTINGS_SERVICE_NAME) GENERATOR_CURRENT_LIMIT_PATH
         in if \<not> initial_derated_output_logged s
            then (Done,
                  set_dbus_value b (Some SETTINGS_SERVICE_NAME) GENERATOR_CURRENT_LIMIT_PATH rounded_output,
                  s\<lparr>initial_derated_output_logged := True\<rparr>)
            else
              (case current_generator_limit_setting of
                 None \<Rightarrow>
                   (Done,
                    set_dbus_value b (Some SETTINGS_SERVICE_NAME) GENERATOR_CURRENT_LIMIT_PATH rounded_output,
                    s)
               | Some cur \<Rightarrow>
                   (case py_sub cur rounded_output of
                      Inl e \<Rightarrow> (Raised e, b, s)
                    | Inr d \<Rightarrow>
                        if differs d
                        then (Done,
                              set_dbus_value b (Some SETTINGS_SERVICE_NAME) GENERATOR_CURRENT_LIMIT_PATH
                                rounded_output,
                              s)
                        else (Done, b, s))))
      else (Done, b, s))"

definition sync_generator_limit_to_ac_input :: "bus \<Rightarrow> mstate \<Rightarrow> result" where
  "sync_generator_limit_to_ac_input b s =
     (if truthy (vebus_service s) \<and> is_generator_running b s then
        (case get_dbus_value b (Some SETTINGS_SERVICE_NAME) GENERATOR_CURRENT_LIMIT_PATH of
           Some current_generator_limit_setting \<Rightarrow>
             (case py_float current_generator_limit_setting of
                Inl e \<Rightarrow> (Raised e, b, s)
              | Inr x \<Rightarrow>
                  (let rounded_gen_limit = py_round1 x
                   in if (case previous_generator_current_limit_setting s of
                            None \<Rightarrow> True
                          | Some p \<Rightarrow> differs (p - rounded_gen_limit))
                      then (Done,
                            set_dbus_value b (vebus_service s) AC_ACTIVE_INPUT_CURRENT_LIMIT_PATH
                              rounded_gen_limit,
                            s\<lparr>previous_ac_current_limit := Some rounded_gen_limit,
                              previous_generator_current_limit_setting := Some rounded_gen_limit\<rparr>)
                      else (Done, b, s)))
         | None \<Rightarrow> (Done, b, s))
      else (Done, b, s))"

definition sync_generator_limit_from_ac_input :: "bus \<Rightarrow> mstate \<Rightarrow> result" where
  "sync_generator_limit_from_ac_input b s =
     (if truthy (vebus_service s) \<and> is_generator_running b s then
        (case get_dbus_value b (vebus_service s) AC_ACTIVE_INPUT_CURRENT_LIMIT_PATH of
           Some current_ac_limit \<Rightarrow>
             (case py_float current_ac_limit of
                Inl e \<Rightarrow> (Raised e, b, s)
              | Inr x \<Rightarrow>
                  (let rounded_ac_limit = py_round1 x
                   in if (case previous_ac_current_limit s of
                            None \<Rightarrow> True
                          | Some p \<Rightarrow> differs (rounded_ac_limit - p))
                      then
                        (case get_dbus_value b (Some SETTINGS_SERVICE_NAME) GENERATOR_CURRENT_LIMIT_PATH of
                           None \<Rightarrow>
                             (Done,
                              set_dbus_value b (Some SETTINGS_SERVICE_NAME) GENERATOR_CURRENT_LIMIT_PATH
                                rounded_ac_limit,
                              s\<lparr>previous_generator_current_limit_setting := Some rounded_ac_limit,
                                previous_ac_current_limit := Some rounded_ac_limit\<rparr>)
                         | Some current_gen_limit \<Rightarrow>
                             (case py_sub current_gen_limit rounded_ac_limit of
                                Inl e \<Rightarrow> (Raised e, b, s)
                              | Inr d \<Rightarrow>
                                  if differs d
                                  then (Done,
                                        set_dbus_value b (Some SETTINGS_SERVICE_NAME)
                                          GENERATOR_CURRENT_LIMIT_PATH rounded_ac_limit,
                                        s\<lparr>previous_generator_current_limit_setting := Some rounded_ac_limit,
                                          previous_ac_current_limit := Some rounded_ac_limit\<rparr>)
                                  else (Done, b, s\<lparr>previous_ac_current_limit := Some rounded_ac_limit\<rparr>)))
                      else (Done, b, s)))
         | None \<Rightarrow> (Done, b, s))
      else (Done, b, s))"

subsection \<open>The control loop\<close>

text \<open>Lines 498 to 509 of \<^verbatim>\<open>_periodic_monitoring\<close>: search again for what is still missing.\<close>

definition rediscover :: "bus \<Rightarrow> mstate \<Rightarrow> result" where
  "rediscover b s =
     (let s1 = (if \<not> truthy (vebus_service s)
                then snd (find_service_once find_vebus_service vebus_service b s) else s);
          s2 = (if \<not> truthy (outdoor_temp_service_name s1)
                then snd (find_service_once find_outdoor_temperature_service outdoor_temp_service_name b s1)
                else s1);
          s3 = (if \<not> truthy (generator_temp_service_name s2)
                then snd (find_service_once find_generator_temperature_service
                            generator_temp_service_name b s2)
                else s2);
          s4 = (if \<not> truthy (gps_service_name s3)
                then snd (find_service_once find_gps_service_internal gps_service_name b s3) else s3);
          s5 = (if \<not> truthy (transfer_switch_service s4)
                then snd (find_service_once find_transfer_switch_input_internal
                            transfer_switch_service b s4)
                else s4);
          s6 = (if \<not> truthy (gen_auto_current_service s5)
                then snd (find_service_once find_gen_auto_current_input_internal
                            gen_auto_current_service b s5)
                else s5)
      in (Done, b, s6))"

text \<open>Lines 522 to 525: the sync from the AC input limit and its guard.\<close>

definition sync_from_ac_input_if_off :: "bus \<Rightarrow> mstate \<Rightarrow> result" where
  "sync_from_ac_input_if_off b s =
     (if is_generator_running b s \<and> gen_auto_current_state s = Some GEN_AUTO_CURRENT_OFF
      then sync_generator_limit_from_ac_input b s
      else (Done, b, s))"

text \<open>Lines 528 to 531: the derating and its guard.\<close>

definition perform_derating_if_on :: "bus \<Rightarrow> mstate \<Rightarrow> result" where
  "perform_derating_if_on b s =
     (if gen_auto_current_state s = Some GEN_AUTO_CURRENT_ON
      then perform_derating b s
      else (Done, b, s))"

definition periodic_monitoring :: "bus \<Rightarrow> mstate \<Rightarrow> result" where
  "periodic_monitoring =
     run_statements
       [rediscover,
        update_outdoor_temperature True False,
        update_altitude True False,
        update_generator_temperature True False,
        update_gen_auto_current_state False,
        sync_generator_limit_to_ac_input,
        sync_from_ac_input_if_off,
        perform_derating_if_on]"

text \<open>The two initial reads at the end of \<^verbatim>\<open>_read_initial_values\<close>.\<close>

definition read_initial_generator_limit :: "bus \<Rightarrow> mstate \<Rightarrow> result" where
  "read_initial_generator_limit b s =
     (case get_dbus_value b (Some SETTINGS_SERVICE_NAME) GENERATOR_CURRENT_LIMIT_PATH of
        Some current_limit \<Rightarrow>
          (case py_float current_limit of
             Inl e \<Rightarrow> (Raised e, b, s)
           | Inr x \<Rightarrow> (Done, b, s\<lparr>previous_generator_current_limit_setting := Some (py_round1 x)\<rparr>))
      | None \<Rightarrow> (Done, b, s))"

definition read_initial_ac_limit :: "bus \<Rightarrow> mstate \<Rightarrow> result" where
  "read_initial_ac_limit b s =
     (case get_dbus_value b (vebus_service s) AC_ACTIVE_INPUT_CURRENT_LIMIT_PATH of
        Some ac_limit \<Rightarrow>
          (case py_float ac_limit of
             Inl e \<Rightarrow> (Raised e, b, s)
           | Inr x \<Rightarrow> (Done, b, s\<lparr>previous_ac_current_limit := Some (py_round1 x)\<rparr>))
      | None \<Rightarrow> (Done, b, s))"

definition read_initial_values :: "bus \<Rightarrow> mstate \<Rightarrow> result" where
  "read_initial_values =
     run_statements
       [update_outdoor_temperature False True,
        update_altitude False True,
        update_generator_temperature False True,
        update_gen_auto_current_state True,
        read_initial_generator_limit,
        read_initial_ac_limit]"

text \<open>The six searches at the start of \<^verbatim>\<open>_delayed_initialization\<close>.\<close>

definition discover_all :: "bus \<Rightarrow> mstate \<Rightarrow> result" where
  "discover_all b s =
     (let s1 = snd (find_service_once find_vebus_service vebus_service b s);
          s2 = snd (find_service_once find_outdoor_temperature_service outdoor_temp_service_name b s1);
          s3 = snd (find_service_once find_generator_temperature_service generator_temp_service_name b s2);
          s4 = snd (find_service_once find_gps_service_internal gps_service_name b s3);
          s5 = snd (find_service_once find_transfer_switch_input_internal transfer_switch_service b s4);
          s6 = snd (find_service_once find_gen_auto_current_input_internal gen_auto_current_service b s5)
      in (Done, b, s6))"

definition delayed_initialization :: "bus \<Rightarrow> mstate \<Rightarrow> result" where
  "delayed_initialization = run_statements [discover_all, read_initial_values]"

text \<open>
  Lines 498 to 514 (discovery and the four readings) and lines 516 to 531 (the three
  synchronizer steps) of \<^verbatim>\<open>_periodic_monitoring\<close>, as blocks of their own.
\<close>

definition refresh_readings :: "bus \<Rightarrow> mstate \<Rightarrow> result" where
  "refresh_readings =
     run_statements
       [rediscover,
        update_outdoor_temperature True False,
        update_altitude True False,
        update_generator_temperature True False,
        update_gen_auto_current_state False]"

definition limit_synchronizer :: "bus \<Rightarrow> mstate \<Rightarrow> result" where
  "limit_synchronizer =
     run_statements
       [sync_generator_limit_to_ac_input,
        sync_from_ac_input_if_off,
        perform_derating_if_on]"

subsection \<open>Runs and observations\<close>

definition outcome_of :: "result \<Rightarrow> outcome" where
  "outcome_of r = fst r"

definition bus_of :: "result \<Rightarrow> bus" where
  "bus_of r = fst (snd r)"

definition state_of :: "result \<Rightarrow> mstate" where
  "state_of r = snd (snd r)"

text \<open>The \<^verbatim>\<open>SetValue()\<close> calls issued between two moments of the bus.\<close>

definition new_writes :: "bus \<Rightarrow> bus \<Rightarrow> (string \<times> string \<times> real) list" where
  "new_writes b b' = drop (length (write_log b)) (write_log b')"

definition to_generator_limit :: "string \<times> string \<times> real \<Rightarrow> bool" where
  "to_generator_limit w = (fst (snd w) = GENERATOR_CURRENT_LIMIT_PATH)"

definition to_ac_input_limit :: "string \<times> string \<times> real \<Rightarrow> bool" where
  "to_ac_input_limit w = (fst (snd w) = AC_ACTIVE_INPUT_CURRENT_LIMIT_PATH)"

text \<open>The rounded output \<^verbatim>\<open>_perform_derating\<close> computes from the stored readings.\<close>

definition derated_output :: "mstate \<Rightarrow> real" where
  "derated_output s =
     py_round1 (BASE_GENERATOR_OUTPUT_AMPS *
       calculate_derating_factor (outdoor_temp_fahrenheit s) (altitude_feet s)
         (generator_temp_fahrenheit s))"

text \<open>
  A run of ticks. Before each tick the world outside the monitor acts on the bus
  (\<open>id\<close>: nothing happens); a tick that raises ends the run.
\<close>

fun run_ticks :: "(bus \<Rightarrow> bus) list \<Rightarrow> bus \<Rightarrow> mstate \<Rightarrow> result" where
  "run_ticks [] b s = (Done, b, s)"
| "run_ticks (ext # exts) b s =
     (case periodic_monitoring (ext b) s of
        (Done, b', s') \<Rightarrow> run_ticks exts b' s'
      | (Raised e, b', s') \<Rightarrow> (Raised e, b', s'))"

text \<open>An external actor sets the AC input limit of service \<open>n\<close> to \<open>x\<close>.\<close>

definition external_ac_write :: "string \<Rightarrow> real \<Rightarrow> bus \<Rightarrow> bus" where
  "external_ac_write n x b = b\<lparr>vals := (vals b)((n, AC_ACTIVE_INPUT_CURRENT_LIMIT_PATH) \<mapsto> DDouble x)\<rparr>"

text \<open>
  What the readings of a tick depend on: the part of the bus they read, and the
  attributes of the object they read or set that the synchronizer looks at.
\<close>

definition sensor_part ::
  "bus \<Rightarrow> (role \<Rightarrow> string option) \<times> (string \<Rightarrow> dval option) \<times> (string \<Rightarrow> dval option) \<times> (string \<Rightarrow> dval option)" where
  "sensor_part b =
     (resolve b,
      (\<lambda>n. vals b (n, TEMPERATURE_PATH)),
      (\<lambda>n. vals b (n, ALTITUDE_PATH)),
      (\<lambda>n. vals b (n, STATE_PATH)))"

definition inputs_view ::
  "mstate \<Rightarrow> (string option \<times> string option \<times> string option \<times> string option \<times> string option \<times> string option)
     \<times> int option \<times> real option \<times> real option \<times> real option" where
  "inputs_view s =
     ((vebus_service s, outdoor_temp_service_name s, generator_temp_service_name s,
       gps_service_name s, transfer_switch_service s, gen_auto_current_service s),
      gen_auto_current_state s, outdoor_temp_fahrenheit s, altitude_feet s,
      generator_temp_fahrenheit s)"

text \<open>
  The inputs are steady: reading them again succeeds and changes neither the services
  found, nor the auto-mode state, nor the environmental sample.
\<close>

definition steady :: "bus \<Rightarrow> mstate \<Rightarrow> bool" where
  "steady b s =
     (case refresh_readings b s of
        (Done, b', s') \<Rightarrow> inputs_view s' = inputs_view s
      | (Raised e, b', s') \<Rightarrow> False)"

text \<open>A generator limit setting that is absent or a number.\<close>

fun numeric_or_absent :: "dval option \<Rightarrow> bool" where
  "numeric_or_absent None = True"
| "numeric_or_absent (Some (DInt i)) = True"
| "numeric_or_absent (Some (DDouble r)) = True"
| "numeric_or_absent (Some (DArray xs)) = False"

subsection \<open>The derating formula as the specification words it\<close>

definition spec_temp_mult :: "real \<Rightarrow> real" where
  "spec_temp_mult outdoor_temp_F =
     (if outdoor_temp_F > 77.0 then max 0 (1 - (outdoor_temp_F - 77.0) * 0.0065) else 1.0)"

definition spec_alt_mult :: "real \<Rightarrow> real" where
  "spec_alt_mult altitude_ft = max 0 (1 - altitude_ft * 0.00003)"

definition spec_gen_mult :: "real \<Rightarrow> real" where
  "spec_gen_mult generator_temp_F =
     (if generator_temp_F \<ge> 222.0 then 0.86
      else if generator_temp_F \<ge> 215.0 then 0.93
      else 1.0)"

subsection \<open>Example buses and objects\<close>

text \<open>
  A bus with an inverter/charger \<open>vebus\<close>, a transfer switch \<open>ts\<close> on generator (state 12)
  and a Gen Auto Current input \<open>auto\<close> in state \<open>mode\<close>; the generator limit setting is
  \<open>g\<close> and the AC input limit is \<open>a\<close>; no temperature sensor and no GPS; every write
  succeeds.
\<close>

definition demo_resolve :: "role \<Rightarrow> string option" where
  "demo_resolve r =
     (case r of
        Vebus \<Rightarrow> Some ''vebus''
      | TransferSwitch \<Rightarrow> Some ''ts''
      | GenAutoCurrent \<Rightarrow> Some ''auto''
      | _ \<Rightarrow> None)"

definition demo_bus :: "int \<Rightarrow> real \<Rightarrow> real \<Rightarrow> bus" where
  "demo_bus mode g a =
     \<lparr>resolve = demo_resolve,
      vals = (\<lambda>k. if k = (''ts'', STATE_PATH) then Some (DInt 12)
                  else if k = (''auto'', STATE_PATH) then Some (DInt mode)
                  else if k = (SETTINGS_SERVICE_NAME, GENERATOR_CURRENT_LIMIT_PATH) then Some (DDouble g)
                  else if k = (''vebus'', AC_ACTIVE_INPUT_CURRENT_LIMIT_PATH) then Some (DDouble a)
                  else None),
      accepts = (\<lambda>k. True),
      write_log = []\<rparr>"

text \<open>The object after start-up on such a bus, with the two limits seen as \<open>pg\<close> and \<open>pa\<close>.\<close>

definition demo_state :: "int \<Rightarrow> real \<Rightarrow> real \<Rightarrow> mstate" where
  "demo_state mode pg pa =
     init_state\<lparr>vebus_service := Some ''vebus'',
                transfer_switch_service := Some ''ts'',
                gen_auto_current_service := Some ''auto'',
                gen_auto_current_state := Some mode,
                previous_gen_auto_current_state := Some mode,
                previous_ac_current_limit := Some pa,
                previous_generator_current_limit_setting := Some pg\<rparr>"

text \<open>An object holding 97 F outdoors, sea level and a generator at 180 F.\<close>

definition hot_day_state :: mstate where
  "hot_day_state =
     init_state\<lparr>outdoor_temp_fahrenheit := Some 97, altitude_feet := Some 0,
                generator_temp_fahrenheit := Some 180\<rparr>"

text \<open>A statement that returns the bus it was given.\<close>

definition keeps_bus :: "(bus \<Rightarrow> mstate \<Rightarrow> result) \<Rightarrow> bool" where
  "keeps_bus f = (\<forall>b s. bus_of (f b s) = b)"

text \<open>
  The same bus while the inverter/charger is not yet on it, and the object after a
  start-up there followed by the readings of a first tick once the inverter/charger
  has appeared.
\<close>

definition startup_bus :: bus where
  "startup_bus = (demo_bus 3 50 30)\<lparr>resolve := demo_resolve(Vebus := None)\<rparr>"

definition late_vebus_state :: mstate where
  "late_vebus_state =
     state_of (refresh_readings (demo_bus 3 50 30)
       (state_of (delayed_initialization startup_bus init_state)))"

text \<open>The example bus with the transfer switch on shore power (state 13).\<close>

definition shore_bus :: "int \<Rightarrow> bus" where
  "shore_bus mode =
     (demo_bus mode 50 50)\<lparr>vals := (vals (demo_bus mode 50 50))((''ts'', STATE_PATH) \<mapsto> DInt 13)\<rparr>"

text \<open>
  The example bus without a Gen Auto Current input, and the object after start-up there
  with the generator limit setting at 50 A.
\<close>

definition no_auto_bus :: "real \<Rightarrow> bus" where
  "no_auto_bus g = (demo_bus 3 g 50)\<lparr>resolve := demo_resolve(GenAutoCurrent := None)\<rparr>"

definition unknown_mode_state :: mstate where
  "unknown_mode_state = state_of (delayed_initialization (no_auto_bus 50) init_state)"

text \<open>
  The example bus with an outdoor temperature sensor, respectively a GPS, whose value is
  invalid: the bus delivers the empty array.
\<close>

definition invalid_temperature_bus :: bus where
  "invalid_temperature_bus =
     (demo_bus 3 50 50)\<lparr>
        resolve := demo_resolve(OutdoorTemp := Some ''temp''),
        vals := (vals (demo_bus 3 50 50))((''temp'', TEMPERATURE_PATH) \<mapsto> DArray [])\<rparr>"

definition invalid_altitude_bus :: bus where
  "invalid_altitude_bus =
     (demo_bus 3 50 50)\<lparr>
        resolve := demo_resolve(Gps := Some ''gps''),
        vals := (vals (demo_bus 3 50 50))((''gps'', ALTITUDE_PATH) \<mapsto> DArray [])\<rparr>"

subsection \<open>The environmental sample\<close>



text \<open>The three fields of the environmental sample all hold a value.\<close>

definition populated :: "mstate \<Rightarrow> bool" where
  "populated s =
     (outdoor_temp_fahrenheit s \<noteq> None \<and> altitude_feet s \<noteq> None
      \<and> generator_temp_fahrenheit s \<noteq> None)"




text \<open>
  The life of the monitor on a bus: \<^verbatim>\<open>__init__\<close>, \<^verbatim>\<open>_delayed_initialization\<close>, then
  the ticks, the outside world acting before each of them.
\<close>

definition monitor_run :: "bus \<Rightarrow> (bus \<Rightarrow> bus) list \<Rightarrow> result" where
  "monitor_run b exts =
     run_ticks exts (bus_of (delayed_initialization b init_state))
       (state_of (delayed_initialization b init_state))"

subsection \<open>When a synchronizer step has nothing to do\<close>

text \<open>The generator limit setting as the synchronizer reads it.\<close>

definition gen_limit_value :: "bus \<Rightarrow> dval option" where
  "gen_limit_value b = get_dbus_value b (Some SETTINGS_SERVICE_NAME) GENERATOR_CURRENT_LIMIT_PATH"

text \<open>The guard of both sync steps.\<close>

definition sync_enabled :: "bus \<Rightarrow> mstate \<Rightarrow> bool" where
  "sync_enabled b s = (truthy (vebus_service s) \<and> is_generator_running b s)"

text \<open>
  Step 1 has nothing to do: the sync is off, the setting cannot be read, or its rounded
  value is within tolerance of the recorded previous generator limit.
\<close>

definition step1_quiet :: "bus \<Rightarrow> mstate \<Rightarrow> bool" where
  "step1_quiet b s =
     (\<not> sync_enabled b s \<or>
      (case gen_limit_value b of
         None \<Rightarrow> True
       | Some g \<Rightarrow>
           (case py_float g of
              Inl e \<Rightarrow> False
            | Inr x \<Rightarrow>
                (case previous_generator_current_limit_setting s of
                   None \<Rightarrow> False
                 | Some p \<Rightarrow> \<not> differs (p - py_round1 x)))))"

text \<open>
  Step 2 has nothing to do: the sync is off, the AC input limit cannot be read, or its
  rounded value is within tolerance of the recorded previous AC limit.
\<close>

definition step2_quiet :: "bus \<Rightarrow> mstate \<Rightarrow> bool" where
  "step2_quiet b s =
     (\<not> sync_enabled b s \<or>
      (case get_dbus_value b (vebus_service s) AC_ACTIVE_INPUT_CURRENT_LIMIT_PATH of
         None \<Rightarrow> True
       | Some a \<Rightarrow>
           (case py_float a of
              Inl e \<Rightarrow> False
            | Inr x \<Rightarrow>
                (case previous_ac_current_limit s of
                   None \<Rightarrow> False
                 | Some p \<Rightarrow> \<not> differs (py_round1 x - p)))))"

text \<open>
  Step 3 has nothing to do: the sample is incomplete, or a derated output has been
  written before and the setting is within tolerance of the derated output.
\<close>

definition step3_quiet :: "bus \<Rightarrow> mstate \<Rightarrow> bool" where
  "step3_quiet b s =
     (\<not> populated s \<or>
      (initial_derated_output_logged s \<and>
       (case gen_limit_value b of
          None \<Rightarrow> False
        | Some g \<Rightarrow>
            (case py_sub g (derated_output s) of
               Inl e \<Rightarrow> False
             | Inr d \<Rightarrow> \<not> differs d))))"

text \<open>What no synchronizer step changes.\<close>

definition guard_part ::
  "bus \<Rightarrow> mstate \<Rightarrow> (string option \<times> int option) \<times> bool \<times> (real option \<times> real option \<times> real option) \<times> bool" where
  "guard_part b s =
     ((vebus_service s, gen_auto_current_state s),
      is_generator_running b s,
      (outdoor_temp_fahrenheit s, altitude_feet s, generator_temp_fahrenheit s),
      accepts b (SETTINGS_SERVICE_NAME, GENERATOR_CURRENT_LIMIT_PATH))"

text \<open>
  The example object when the setting (50 A) is away from the derated output (54.6 A), and
  two runs of the synchronizer from there.
\<close>

definition derating_due_state :: mstate where
  "derating_due_state = (demo_state 3 50 50)\<lparr>initial_derated_output_logged := True\<rparr>"

definition due_run1 :: result where
  "due_run1 = limit_synchronizer (demo_bus 3 50 50) derating_due_state"

definition due_run2 :: result where
  "due_run2 = limit_synchronizer (bus_of due_run1) (state_of due_run1)"

subsection \<open>The sample after a tick\<close>


text \<open>
  The service a tick reads from: the one the object holds, and when it holds none, the
  one the search at the start of the tick finds.
\<close>

definition service_in_tick :: "string option \<Rightarrow> string option \<Rightarrow> string option" where
  "service_in_tick held found = (if truthy held then held else found)"

subsection \<open>An inverter/charger found after start-up\<close>

text \<open>The inverter/charger \<open>vebus\<close> registers on the bus.\<close>

definition inverter_appears :: "bus \<Rightarrow> bus" where
  "inverter_appears b = b\<lparr>resolve := (resolve b)(Vebus := Some ''vebus'')\<rparr>"

text \<open>
  The example bus at start-up while the inverter/charger is not yet on it, the generator
  limit setting already at the derated output of the default sample (54.6 A) and the AC
  input limit at 30 A; the life of the monitor there, the inverter/charger appearing
  before the first of three ticks; and the object at the end of it.
\<close>

definition derated_startup_bus :: bus where
  "derated_startup_bus = (demo_bus 3 54.6 30)\<lparr>resolve := demo_resolve(Vebus := None)\<rparr>"

definition late_inverter_run :: result where
  "late_inverter_run = monitor_run derated_startup_bus [inverter_appears, id, id]"

definition late_inverter_state :: mstate where
  "late_inverter_state =
     init_state\<lparr>vebus_service := Some ''vebus'', transfer_switch_service := Some ''ts'',
                gen_auto_current_service := Some ''auto'', gen_auto_current_state := Some 3,
                previous_gen_auto_current_state := Some 3,
                initial_derated_output_logged := True,
                previous_generator_current_limit_setting := Some 54.6\<rparr>"

subsection \<open>Readings and trackers\<close>

text \<open>The three attributes only the synchronizer steps set.\<close>

definition trackers :: "mstate \<Rightarrow> real option \<times> real option \<times> bool" where
  "trackers s =
     (previous_ac_current_limit s, previous_generator_current_limit_setting s,
      initial_derated_output_logged s)"

text \<open>
  A statement that only reads: its outcome and the inputs it leaves depend on nothing but
  the sensor part of the bus and the inputs of the object; it keeps the bus and the
  trackers.
\<close>

definition reads_inputs_only :: "(bus \<Rightarrow> mstate \<Rightarrow> result) \<Rightarrow> bool" where
  "reads_inputs_only f =
     (\<forall>b b' s t. sensor_part b = sensor_part b' \<and> inputs_view s = inputs_view t \<longrightarrow>
        outcome_of (f b s) = outcome_of (f b' t)
        \<and> inputs_view (state_of (f b s)) = inputs_view (state_of (f b' t))
        \<and> bus_of (f b s) = b
        \<and> trackers (state_of (f b s)) = trackers s)"

subsection \<open>Auto-mode OFF\<close>




section \<open>Properties\<close>

subsection \<open>Rounding\<close>

lemma py_round1_grid: "py_round1 (of_int k / 10) = of_int k / 10"
  by (simp add: py_round1_def Let_def)

lemma py_round1_idem: "py_round1 (py_round1 x) = py_round1 x"
proof -
  define k :: int where
    "k = (if x * 10 - of_int \<lfloor>x * 10\<rfloor> < 1 / 2 then \<lfloor>x * 10\<rfloor>
          else if 1 / 2 < x * 10 - of_int \<lfloor>x * 10\<rfloor> then \<lfloor>x * 10\<rfloor> + 1
          else if even \<lfloor>x * 10\<rfloor> then \<lfloor>x * 10\<rfloor> else \<lfloor>x * 10\<rfloor> + 1)"
  have e: "py_round1 x = of_int k / 10"
    by (simp add: py_round1_def Let_def k_def)
  show ?thesis unfolding e by (rule py_round1_grid)
qed

lemmas derating_constants =
  BASE_TEMPERATURE_THRESHOLD_F_def TEMP_COEFFICIENT_def ALTITUDE_COEFFICIENT_def
  BASE_GENERATOR_OUTPUT_AMPS_def OUTPUT_BUFFER_def HIGH_GENTEMP_THRESHOLD_F_def
  MEDIUM_GENTEMP_THRESHOLD_F_def HIGH_GENTEMP_REDUCTION_def MEDIUM_GENTEMP_REDUCTION_def

lemmas path_defs =
  SETTINGS_SERVICE_NAME_def ALTITUDE_PATH_def AC_ACTIVE_INPUT_CURRENT_LIMIT_PATH_def
  TEMPERATURE_PATH_def STATE_PATH_def GENERATOR_CURRENT_LIMIT_PATH_def

lemma settings_truthy [simp]: "SETTINGS_SERVICE_NAME \<noteq> []"
  by (simp add: SETTINGS_SERVICE_NAME_def)

lemma paths_distinct [simp]:
  "AC_ACTIVE_INPUT_CURRENT_LIMIT_PATH \<noteq> GENERATOR_CURRENT_LIMIT_PATH"
  "GENERATOR_CURRENT_LIMIT_PATH \<noteq> AC_ACTIVE_INPUT_CURRENT_LIMIT_PATH"
  "AC_ACTIVE_INPUT_CURRENT_LIMIT_PATH \<noteq> TEMPERATURE_PATH"
  "AC_ACTIVE_INPUT_CURRENT_LIMIT_PATH \<noteq> ALTITUDE_PATH"
  "AC_ACTIVE_INPUT_CURRENT_LIMIT_PATH \<noteq> STATE_PATH"
  "GENERATOR_CURRENT_LIMIT_PATH \<noteq> TEMPERATURE_PATH"
  "GENERATOR_CURRENT_LIMIT_PATH \<noteq> ALTITUDE_PATH"
  "GENERATOR_CURRENT_LIMIT_PATH \<noteq> STATE_PATH"
  "TEMPERATURE_PATH \<noteq> AC_ACTIVE_INPUT_CURRENT_LIMIT_PATH"
  "ALTITUDE_PATH \<noteq> AC_ACTIVE_INPUT_CURRENT_LIMIT_PATH"
  "STATE_PATH \<noteq> AC_ACTIVE_INPUT_CURRENT_LIMIT_PATH"
  "TEMPERATURE_PATH \<noteq> GENERATOR_CURRENT_LIMIT_PATH"
  "ALTITUDE_PATH \<noteq> GENERATOR_CURRENT_LIMIT_PATH"
  "STATE_PATH \<noteq> GENERATOR_CURRENT_LIMIT_PATH"
  by (simp_all add: path_defs)

subsection \<open>The derating calculator and the value written\<close>

lemma calculate_derating_factor_spec:
  "calculate_derating_factor (Some t) (Some a) (Some g) =
     spec_temp_mult t * spec_alt_mult a * spec_gen_mult g * 0.9"
  by (simp add: calculate_derating_factor_def Let_def derating_constants
        spec_temp_mult_def spec_alt_mult_def spec_gen_mult_def)

lemma write_log_set_settings:
  "write_log (set_dbus_value b (Some SETTINGS_SERVICE_NAME) p v) =
     write_log b @ [(SETTINGS_SERVICE_NAME, p, v)]"
  by (simp add: set_dbus_value_def)

lemma perform_derating_writes:
  assumes "perform_derating b s = (out, b', s')"
  shows "write_log b' = write_log b
       \<or> write_log b' =
           write_log b @ [(SETTINGS_SERVICE_NAME, GENERATOR_CURRENT_LIMIT_PATH, derated_output s)]"
  using assms
  by (auto simp: perform_derating_def Let_def derated_output_def write_log_set_settings
           split: if_splits option.splits sum.splits)

lemma perform_derating_first:
  assumes "\<not> initial_derated_output_logged s"
    and "outdoor_temp_fahrenheit s = Some t" "altitude_feet s = Some a"
      "generator_temp_fahrenheit s = Some g"
  shows "perform_derating b s =
     (Done,
      set_dbus_value b (Some SETTINGS_SERVICE_NAME) GENERATOR_CURRENT_LIMIT_PATH (derated_output s),
      s\<lparr>initial_derated_output_logged := True\<rparr>)"
  using assms by (simp add: perform_derating_def Let_def derated_output_def)

lemma perform_derating_new_writes:
  "new_writes b (bus_of (perform_derating b s)) = []
   \<or> new_writes b (bus_of (perform_derating b s))
        = [(SETTINGS_SERVICE_NAME, GENERATOR_CURRENT_LIMIT_PATH, derated_output s)]"
proof -
  obtain out b' s' where r: "perform_derating b s = (out, b', s')"
    by (cases "perform_derating b s") auto
  from perform_derating_writes[OF r] show ?thesis
    by (auto simp: new_writes_def bus_of_def r)
qed

text \<open>
  Claim C3, as stated, at the value written: with 97 F outdoors, sea level and a generator
  at 180 F the factor is 0.783 and 62.5 times the factor is 48.9375, but the value
  \<^verbatim>\<open>_perform_derating\<close> writes to the generator limit setting is 48.9: the written amps
  are not 62.5 times the factor.
\<close>

theorem C3_written_amps_counterexample:
  "snd (snd (last (write_log (bus_of (perform_derating (demo_bus 3 50 50) hot_day_state)))))
     \<noteq> 62.5 * calculate_derating_factor (outdoor_temp_fahrenheit hot_day_state)
          (altitude_feet hot_day_state) (generator_temp_fahrenheit hot_day_state)"
  by (simp add: perform_derating_def hot_day_state_def init_state_def Let_def bus_of_def
        set_dbus_value_def demo_bus_def calculate_derating_factor_def derating_constants
        py_round1_def)

text \<open>
  Claim C3, amended. For every triple of readings the calculator returns exactly
  \<open>temp_mult * alt_mult * gen_mult * 0.9\<close>, with the three multipliers as the
  specification words them (thresholds inclusive, the high generator tier tested first).
  The amps \<^verbatim>\<open>_perform_derating\<close> writes to the generator limit setting are 62.5 times
  this factor rounded to one decimal place: whenever it writes, that is the one value
  written, and it does write when no derated output has been written before.
\<close>

theorem C3_derating_formula:
  "calculate_derating_factor (Some t) (Some a) (Some g) =
     spec_temp_mult t * spec_alt_mult a * spec_gen_mult g * 0.9
   \<and> (outdoor_temp_fahrenheit s = Some t \<and> altitude_feet s = Some a
        \<and> generator_temp_fahrenheit s = Some g \<longrightarrow>
      (let amps = py_round1 (62.5 * (spec_temp_mult t * spec_alt_mult a * spec_gen_mult g * 0.9))
       in (new_writes b (bus_of (perform_derating b s)) = []
           \<or> new_writes b (bus_of (perform_derating b s))
               = [(SETTINGS_SERVICE_NAME, GENERATOR_CURRENT_LIMIT_PATH, amps)])
          \<and> (\<not> initial_derated_output_logged s \<longrightarrow>
               new_writes b (bus_of (perform_derating b s))
                 = [(SETTINGS_SERVICE_NAME, GENERATOR_CURRENT_LIMIT_PATH, amps)])))"
proof -
  have f: "calculate_derating_factor (Some t) (Some a) (Some g) =
     spec_temp_mult t * spec_alt_mult a * spec_gen_mult g * 0.9"
    by (rule calculate_derating_factor_spec)
  have d: "derated_output s =
       py_round1 (62.5 * (spec_temp_mult t * spec_alt_mult a * spec_gen_mult g * 0.9))"
    if "outdoor_temp_fahrenheit s = Some t" "altitude_feet s = Some a"
      "generator_temp_fahrenheit s = Some g"
    using that by (simp add: derated_output_def f BASE_GENERATOR_OUTPUT_AMPS_def)
  have fst: "new_writes b (bus_of (perform_derating b s))
       = [(SETTINGS_SERVICE_NAME, GENERATOR_CURRENT_LIMIT_PATH, derated_output s)]"
    if "outdoor_temp_fahrenheit s = Some t" "altitude_feet s = Some a"
      "generator_temp_fahrenheit s = Some g" "\<not> initial_derated_output_logged s"
    using that
    by (simp add: perform_derating_first[of s t a g] bus_of_def new_writes_def
          write_log_set_settings)
  show ?thesis
    using f d fst perform_derating_new_writes[of b s] by (auto simp: Let_def)
qed

text \<open>
  Witness for C3: on the 97 F object the first derating writes 48.9 A, and the factor
  is 0.783.
\<close>

theorem C3_derating_formula_witness:
  "new_writes (demo_bus 3 50 50) (bus_of (perform_derating (demo_bus 3 50 50) hot_day_state))
     = [(SETTINGS_SERVICE_NAME, GENERATOR_CURRENT_LIMIT_PATH, 48.9)]
   \<and> calculate_derating_factor (Some 97) (Some 0) (Some 180) = 0.783"
  using C3_derating_formula [of 97 0 180 hot_day_state "demo_bus 3 50 50"]
  by (simp add: hot_day_state_def init_state_def Let_def spec_temp_mult_def spec_alt_mult_def
        spec_gen_mult_def py_round1_def)

text \<open>
  Claim C8, as stated, at its second reference input: the output for (97, 0, 180)
  rounded to one decimal, as it is applied at the point of writing, is not 48.94.
\<close>

theorem C8_rounded_reference_counterexample:
  "py_round1 (62.5 * calculate_derating_factor (Some 97.0) (Some 0.0) (Some 180.0)) \<noteq> 48.94"
  by (simp add: calculate_derating_factor_def Let_def derating_constants py_round1_def)

text \<open>
  Claim C8, amended. On (77, 0, 180) every multiplier is 1 and the output is
  \<open>0.9 * 62.5 = 56.25\<close>. On (97, 0, 180) the temperature multiplier is 0.87, the
  unrounded output is \<open>62.5 * 0.87 * 1 * 1 * 0.9 = 48.9375\<close>, and rounded to one decimal,
  as applied at the point of writing, it is 48.9.
\<close>

theorem C8_reference_values:
  "BASE_GENERATOR_OUTPUT_AMPS * calculate_derating_factor (Some 77.0) (Some 0.0) (Some 180.0)
     = 0.9 * 62.5
   \<and> 0.9 * 62.5 = (56.25 :: real)
   \<and> calculate_derating_factor (Some 97.0) (Some 0.0) (Some 180.0) = 0.87 * 1 * 1 * 0.9
   \<and> BASE_GENERATOR_OUTPUT_AMPS * calculate_derating_factor (Some 97.0) (Some 0.0) (Some 180.0)
       = 48.9375
   \<and> py_round1 (BASE_GENERATOR_OUTPUT_AMPS *
        calculate_derating_factor (Some 97.0) (Some 0.0) (Some 180.0)) = 48.9"
  by (simp add: calculate_derating_factor_def Let_def derating_constants py_round1_def)

subsection \<open>Blocks of statements\<close>

lemma run_statements_append:
  "run_statements (fs @ gs) b s =
     (case run_statements fs b s of
        (Done, b', s') \<Rightarrow> run_statements gs b' s'
      | (Raised e, b', s') \<Rightarrow> (Raised e, b', s'))"
  by (induction fs arbitrary: b s) (auto split: prod.splits outcome.splits)

lemma periodic_monitoring_split:
  "periodic_monitoring b s =
     (case refresh_readings b s of
        (Done, b', s') \<Rightarrow> limit_synchronizer b' s'
      | (Raised e, b', s') \<Rightarrow> (Raised e, b', s'))"
proof -
  have "periodic_monitoring =
      run_statements ([rediscover, update_outdoor_temperature True False, update_altitude True False,
        update_generator_temperature True False, update_gen_auto_current_state False]
        @ [sync_generator_limit_to_ac_input, sync_from_ac_input_if_off, perform_derating_if_on])"
    by (simp add: periodic_monitoring_def)
  then have "periodic_monitoring b s = run_statements ([rediscover, update_outdoor_temperature True False, update_altitude True False,
        update_generator_temperature True False, update_gen_auto_current_state False]
        @ [sync_generator_limit_to_ac_input, sync_from_ac_input_if_off, perform_derating_if_on]) b s"
    by simp
  then show ?thesis
    unfolding run_statements_append refresh_readings_def limit_synchronizer_def .
qed

lemma keeps_bus_run:
  "list_all keeps_bus fs \<Longrightarrow> bus_of (run_statements fs b s) = b"
proof (induction fs arbitrary: b s)
  case Nil
  then show ?case by (simp add: bus_of_def)
next
  case (Cons f fs)
  obtain out b' s' where r: "f b s = (out, b', s')" by (cases "f b s") auto
  from Cons.prems have "bus_of (f b s) = b" by (simp add: keeps_bus_def)
  with r have b': "b' = b" by (simp add: bus_of_def)
  show ?case
  proof (cases out)
    case Done
    with r b' Cons show ?thesis by simp
  next
    case (Raised e)
    with r b' show ?thesis by (simp add: bus_of_def)
  qed
qed

lemma keeps_bus_rediscover: "keeps_bus rediscover"
  by (simp add: keeps_bus_def rediscover_def bus_of_def Let_def)

lemma keeps_bus_outdoor: "keeps_bus (update_outdoor_temperature lu li)"
  by (simp add: keeps_bus_def update_outdoor_temperature_def bus_of_def Let_def
        split: option.splits sum.splits)

lemma keeps_bus_altitude: "keeps_bus (update_altitude lu li)"
  by (simp add: keeps_bus_def update_altitude_def bus_of_def
        split: option.splits sum.splits dval.splits list.splits)

lemma keeps_bus_generator: "keeps_bus (update_generator_temperature lu li)"
  by (simp add: keeps_bus_def update_generator_temperature_def bus_of_def Let_def
        split: option.splits sum.splits)

lemma keeps_bus_auto: "keeps_bus (update_gen_auto_current_state ir)"
  by (simp add: keeps_bus_def update_gen_auto_current_state_def bus_of_def
        split: option.splits sum.splits)

lemma refresh_readings_bus: "bus_of (refresh_readings b s) = b"
  unfolding refresh_readings_def
  by (rule keeps_bus_run)
     (simp add: keeps_bus_rediscover keeps_bus_outdoor keeps_bus_altitude keeps_bus_generator
        keeps_bus_auto)

lemma refresh_readings_DoneD: "refresh_readings b s = (out, b1, s1) \<Longrightarrow> b1 = b"
  using refresh_readings_bus[of b s] by (simp add: bus_of_def)

subsection \<open>Evaluating the examples\<close>

lemmas eval_defs =
  refresh_readings_def limit_synchronizer_def periodic_monitoring_def delayed_initialization_def
  read_initial_values_def discover_all_def rediscover_def find_service_once_def
  find_vebus_service_def find_outdoor_temperature_service_def find_generator_temperature_service_def
  find_gps_service_internal_def find_transfer_switch_input_internal_def
  find_gen_auto_current_input_internal_def update_outdoor_temperature_def update_altitude_def
  update_generator_temperature_def update_gen_auto_current_state_def
  read_initial_generator_limit_def read_initial_ac_limit_def
  sync_generator_limit_to_ac_input_def sync_generator_limit_from_ac_input_def
  sync_from_ac_input_if_off_def perform_derating_if_on_def perform_derating_def
  is_generator_running_def get_dbus_value_def set_dbus_value_def truthy_def
  altitude_failed_def altitude_store_def differs_def
  demo_bus_def demo_resolve_def demo_state_def init_state_def
  bus_of_def state_of_def outcome_of_def new_writes_def
  calculate_derating_factor_def derating_constants py_round1_def
  DEFAULT_ALTITUDE_FEET_def DEFAULT_GENERATOR_TEMP_F_def DEFAULT_OUTDOOR_TEMP_F_def
  GEN_AUTO_CURRENT_OFF_def GEN_AUTO_CURRENT_ON_def path_defs Let_def

lemma late_vebus_state_eq:
  "late_vebus_state =
     init_state\<lparr>vebus_service := Some ''vebus'', transfer_switch_service := Some ''ts'',
                gen_auto_current_service := Some ''auto'', gen_auto_current_state := Some 3,
                previous_gen_auto_current_state := Some 3,
                previous_generator_current_limit_setting := Some 50\<rparr>"
  by (simp add: late_vebus_state_def startup_bus_def eval_defs)

subsection \<open>Step 1: generator limit to AC input limit\<close>

lemma write_log_set_dbus_value:
  "n \<noteq> [] \<Longrightarrow> write_log (set_dbus_value b (Some n) p v) = write_log b @ [(n, p, v)]"
  by (simp add: set_dbus_value_def)

lemma sync_to_ac_input_eq:
  assumes "vebus_service s = Some n" and "n \<noteq> []"
    and "is_generator_running b s"
    and "get_dbus_value b (Some SETTINGS_SERVICE_NAME) GENERATOR_CURRENT_LIMIT_PATH = Some v"
    and "py_float v = Inr x"
  shows "sync_generator_limit_to_ac_input b s =
     (if previous_generator_current_limit_setting s = None
         \<or> differs (the (previous_generator_current_limit_setting s) - py_round1 x)
      then (Done,
            set_dbus_value b (Some n) AC_ACTIVE_INPUT_CURRENT_LIMIT_PATH (py_round1 x),
            s\<lparr>previous_ac_current_limit := Some (py_round1 x),
              previous_generator_current_limit_setting := Some (py_round1 x)\<rparr>)
      else (Done, b, s))"
  using assms
  by (cases "previous_generator_current_limit_setting s")
     (simp_all add: sync_generator_limit_to_ac_input_def truthy_def Let_def)

text \<open>
  What step 1 tests. With the generator running, the inverter/charger resolved and a
  number read from the generator limit setting, it writes when no previous generator
  limit has been recorded or the rounded setting is more than 0.01 A away from it, and
  otherwise changes nothing: the recorded previous AC limit is not looked at.
\<close>

lemma sync_to_ac_input_test:
  assumes "vebus_service s = Some n" and "n \<noteq> []"
    and "is_generator_running b s"
    and "get_dbus_value b (Some SETTINGS_SERVICE_NAME) GENERATOR_CURRENT_LIMIT_PATH = Some v"
    and "py_float v = Inr x"
  shows "(previous_generator_current_limit_setting s = None
            \<or> differs (the (previous_generator_current_limit_setting s) - py_round1 x) \<longrightarrow>
          outcome_of (sync_generator_limit_to_ac_input b s) = Done
          \<and> new_writes b (bus_of (sync_generator_limit_to_ac_input b s))
              = [(n, AC_ACTIVE_INPUT_CURRENT_LIMIT_PATH, py_round1 x)]
          \<and> previous_ac_current_limit (state_of (sync_generator_limit_to_ac_input b s))
              = Some (py_round1 x)
          \<and> previous_generator_current_limit_setting (state_of (sync_generator_limit_to_ac_input b s))
              = Some (py_round1 x))
       \<and> (\<not> (previous_generator_current_limit_setting s = None
               \<or> differs (the (previous_generator_current_limit_setting s) - py_round1 x)) \<longrightarrow>
          sync_generator_limit_to_ac_input b s = (Done, b, s))"
  unfolding sync_to_ac_input_eq[OF assms]
  by (simp add: outcome_of_def bus_of_def state_of_def new_writes_def
        write_log_set_dbus_value[OF assms(2)])

lemma late_start_eq:
  "delayed_initialization derated_startup_bus init_state =
     (Done, derated_startup_bus,
      init_state\<lparr>transfer_switch_service := Some ''ts'',
                gen_auto_current_service := Some ''auto'', gen_auto_current_state := Some 3,
                previous_gen_auto_current_state := Some 3,
                previous_generator_current_limit_setting := Some 54.6\<rparr>)"
  by (simp add: derated_startup_bus_def eval_defs)

lemma late_tick1_eq:
  "periodic_monitoring (inverter_appears derated_startup_bus)
     (init_state\<lparr>transfer_switch_service := Some ''ts'',
                gen_auto_current_service := Some ''auto'', gen_auto_current_state := Some 3,
                previous_gen_auto_current_state := Some 3,
                previous_generator_current_limit_setting := Some 54.6\<rparr>) =
     (Done,
      set_dbus_value (inverter_appears derated_startup_bus) (Some SETTINGS_SERVICE_NAME)
        GENERATOR_CURRENT_LIMIT_PATH 54.6,
      late_inverter_state)"
  by (simp add: derated_startup_bus_def inverter_appears_def late_inverter_state_def eval_defs)

lemma late_tick_idle:
  "periodic_monitoring
     (set_dbus_value (inverter_appears derated_startup_bus) (Some SETTINGS_SERVICE_NAME)
        GENERATOR_CURRENT_LIMIT_PATH 54.6) late_inverter_state =
     (Done,
      set_dbus_value (inverter_appears derated_startup_bus) (Some SETTINGS_SERVICE_NAME)
        GENERATOR_CURRENT_LIMIT_PATH 54.6,
      late_inverter_state)"
  by (simp add: derated_startup_bus_def inverter_appears_def late_inverter_state_def eval_defs)

lemma late_inverter_run_eq:
  "late_inverter_run =
     (Done,
      set_dbus_value (inverter_appears derated_startup_bus) (Some SETTINGS_SERVICE_NAME)
        GENERATOR_CURRENT_LIMIT_PATH 54.6,
      late_inverter_state)"
  by (simp only: late_inverter_run_def monitor_run_def late_start_eq bus_of_def state_of_def
        fst_conv snd_conv run_ticks.simps late_tick1_eq late_tick_idle id_apply prod.case
        outcome.case)

text \<open>
  Claim C4 on the code. The comment in \<^verbatim>\<open>_sync_generator_limit_to_ac_input\<close> says
  what the claim says (\<^verbatim>\<open>Check if the generator limit has changed or if the AC input limit needs to be set initially\<close>),
  but the condition under it tests \<^verbatim>\<open>previous_generator_current_limit_setting is None\<close>.
  The two differ after a start-up without the inverter/charger: start-up records the
  generator limit setting and leaves the previous AC limit unrecorded.

  First tick after the inverter/charger appears, setting at 50 A: the generator runs, the
  inverter/charger is resolved, the setting is read, no previous AC limit is recorded,
  and step 1 writes nothing.

  Whole run, setting at the derated output 54.6 A and AC input limit at 30 A, auto-mode
  ON: after three ticks with the inverter/charger present and the generator running, the
  previous AC limit is still unrecorded, no write to the AC input limit has been issued,
  and the AC input limit is still 30 A while the setting and the derated output are
  54.6 A.
\<close>

theorem C4_late_inverter_not_synced:
  "previous_ac_current_limit late_vebus_state = None
   \<and> truthy (vebus_service late_vebus_state)
   \<and> is_generator_running (demo_bus 3 50 30) late_vebus_state
   \<and> get_dbus_value (demo_bus 3 50 30) (Some SETTINGS_SERVICE_NAME) GENERATOR_CURRENT_LIMIT_PATH
       = Some (DDouble 50)
   \<and> new_writes (demo_bus 3 50 30)
       (bus_of (sync_generator_limit_to_ac_input (demo_bus 3 50 30) late_vebus_state)) = []
   \<and> outcome_of late_inverter_run = Done
   \<and> vebus_service (state_of late_inverter_run) = Some ''vebus''
   \<and> is_generator_running (bus_of late_inverter_run) (state_of late_inverter_run)
   \<and> gen_auto_current_state (state_of late_inverter_run) = Some GEN_AUTO_CURRENT_ON
   \<and> previous_ac_current_limit (state_of late_inverter_run) = None
   \<and> gen_limit_value (bus_of late_inverter_run) = Some (DDouble 54.6)
   \<and> derated_output (state_of late_inverter_run) = 54.6
   \<and> get_dbus_value (bus_of late_inverter_run) (Some ''vebus'') AC_ACTIVE_INPUT_CURRENT_LIMIT_PATH
       = Some (DDouble 30)
   \<and> filter to_ac_input_limit (new_writes derated_startup_bus (bus_of late_inverter_run)) = []"
  by (simp add: late_vebus_state_eq late_inverter_run_eq)
     (simp add: late_inverter_state_def derated_startup_bus_def inverter_appears_def
        gen_limit_value_def derated_output_def to_ac_input_limit_def eval_defs)

subsection \<open>Generator not running\<close>

lemma not_running_sync_to:
  "\<not> is_generator_running b s \<Longrightarrow> sync_generator_limit_to_ac_input b s = (Done, b, s)"
  by (simp add: sync_generator_limit_to_ac_input_def)

lemma not_running_sync_from:
  "\<not> is_generator_running b s \<Longrightarrow> sync_from_ac_input_if_off b s = (Done, b, s)"
  by (simp add: sync_from_ac_input_if_off_def)

lemma unresolved_not_running:
  "\<not> truthy (transfer_switch_service s) \<Longrightarrow> \<not> is_generator_running b s"
  by (simp add: is_generator_running_def)

text \<open>
  Claim C6. On a tick whose readings find the generator not running (in particular when
  the transfer switch service is unresolved), step 1 and step 2 write nothing and change
  nothing, whatever the auto-mode state and the two set-points are: the tick is the
  derating step alone. With auto-mode not ON the tick writes nothing at all; with
  auto-mode ON the derating proceeds, and it does write the generator limit setting when
  no derated output has been written before.
\<close>

theorem C6_generator_not_running:
  assumes "refresh_readings b s = (Done, b1, s1)"
    and "\<not> is_generator_running b1 s1 \<or> \<not> truthy (transfer_switch_service s1)"
  shows "sync_generator_limit_to_ac_input b1 s1 = (Done, b1, s1)
       \<and> sync_from_ac_input_if_off b1 s1 = (Done, b1, s1)
       \<and> periodic_monitoring b s = perform_derating_if_on b1 s1
       \<and> (gen_auto_current_state s1 \<noteq> Some GEN_AUTO_CURRENT_ON \<longrightarrow>
            periodic_monitoring b s = (Done, b1, s1))
       \<and> (gen_auto_current_state s1 = Some GEN_AUTO_CURRENT_ON \<longrightarrow>
            periodic_monitoring b s = perform_derating b1 s1)
       \<and> (gen_auto_current_state s1 = Some GEN_AUTO_CURRENT_ON
            \<and> \<not> initial_derated_output_logged s1
            \<and> outdoor_temp_fahrenheit s1 \<noteq> None \<and> altitude_feet s1 \<noteq> None
            \<and> generator_temp_fahrenheit s1 \<noteq> None \<longrightarrow>
            new_writes b (bus_of (periodic_monitoring b s))
              = [(SETTINGS_SERVICE_NAME, GENERATOR_CURRENT_LIMIT_PATH, derated_output s1)])"
proof -
  from assms(2) have nr: "\<not> is_generator_running b1 s1"
    using unresolved_not_running by blast
  have b1: "b1 = b" using assms(1) by (rule refresh_readings_DoneD)
  have pm: "periodic_monitoring b s = perform_derating_if_on b1 s1"
    by (simp add: periodic_monitoring_split assms(1) limit_synchronizer_def
          not_running_sync_to[OF nr] not_running_sync_from[OF nr]
          split: prod.splits outcome.splits)
  have w: "new_writes b (bus_of (perform_derating b1 s1))
        = [(SETTINGS_SERVICE_NAME, GENERATOR_CURRENT_LIMIT_PATH, derated_output s1)]"
    if "\<not> initial_derated_output_logged s1" "outdoor_temp_fahrenheit s1 \<noteq> None"
      "altitude_feet s1 \<noteq> None" "generator_temp_fahrenheit s1 \<noteq> None"
    using that b1
    by (auto simp: perform_derating_first bus_of_def new_writes_def write_log_set_settings)
  show ?thesis
    using nr pm w
    by (auto simp: not_running_sync_to not_running_sync_from perform_derating_if_on_def)
qed

text \<open>
  Witness for C6: on shore power with auto-mode ON the tick writes the derated 54.6 A to
  the generator limit setting; with auto-mode OFF and the AC input limit away from the
  recorded one it writes nothing.
\<close>

theorem C6_generator_not_running_witness:
  "new_writes (shore_bus 3) (bus_of (periodic_monitoring (shore_bus 3) (demo_state 3 50 50)))
     = [(SETTINGS_SERVICE_NAME, GENERATOR_CURRENT_LIMIT_PATH, 54.6)]
   \<and> periodic_monitoring (shore_bus 2) (demo_state 2 50 30) = (Done, shore_bus 2, demo_state 2 50 30)"
proof -
  have r3: "refresh_readings (shore_bus 3) (demo_state 3 50 50) = (Done, shore_bus 3, demo_state 3 50 50)"
    by (simp add: shore_bus_def eval_defs)
  have r2: "refresh_readings (shore_bus 2) (demo_state 2 50 30) = (Done, shore_bus 2, demo_state 2 50 30)"
    by (simp add: shore_bus_def eval_defs)
  have n3: "\<not> is_generator_running (shore_bus 3) (demo_state 3 50 50)
            \<or> \<not> truthy (transfer_switch_service (demo_state 3 50 50))"
    by (simp add: shore_bus_def eval_defs)
  have n2: "\<not> is_generator_running (shore_bus 2) (demo_state 2 50 30)
            \<or> \<not> truthy (transfer_switch_service (demo_state 2 50 30))"
    by (simp add: shore_bus_def eval_defs)
  have d: "derated_output (demo_state 3 50 50) = 54.6"
    by (simp add: derated_output_def eval_defs)
  have f3: "gen_auto_current_state (demo_state 3 50 50) = Some GEN_AUTO_CURRENT_ON"
      "\<not> initial_derated_output_logged (demo_state 3 50 50)"
      "outdoor_temp_fahrenheit (demo_state 3 50 50) \<noteq> None"
      "altitude_feet (demo_state 3 50 50) \<noteq> None"
      "generator_temp_fahrenheit (demo_state 3 50 50) \<noteq> None"
    by (simp_all add: demo_state_def init_state_def GEN_AUTO_CURRENT_ON_def)
  have f2: "gen_auto_current_state (demo_state 2 50 30) \<noteq> Some GEN_AUTO_CURRENT_ON"
    by (simp add: demo_state_def init_state_def GEN_AUTO_CURRENT_ON_def)
  from C6_generator_not_running [OF r3 n3]
  have i3: "gen_auto_current_state (demo_state 3 50 50) = Some GEN_AUTO_CURRENT_ON
            \<and> \<not> initial_derated_output_logged (demo_state 3 50 50)
            \<and> outdoor_temp_fahrenheit (demo_state 3 50 50) \<noteq> None
            \<and> altitude_feet (demo_state 3 50 50) \<noteq> None
            \<and> generator_temp_fahrenheit (demo_state 3 50 50) \<noteq> None \<longrightarrow>
            new_writes (shore_bus 3) (bus_of (periodic_monitoring (shore_bus 3) (demo_state 3 50 50)))
              = [(SETTINGS_SERVICE_NAME, GENERATOR_CURRENT_LIMIT_PATH, derated_output (demo_state 3 50 50))]"
    by blast
  from i3 f3
  have "new_writes (shore_bus 3) (bus_of (periodic_monitoring (shore_bus 3) (demo_state 3 50 50)))
     = [(SETTINGS_SERVICE_NAME, GENERATOR_CURRENT_LIMIT_PATH, derated_output (demo_state 3 50 50))]"
    by blast
  then have "new_writes (shore_bus 3) (bus_of (periodic_monitoring (shore_bus 3) (demo_state 3 50 50)))
     = [(SETTINGS_SERVICE_NAME, GENERATOR_CURRENT_LIMIT_PATH, 54.6)]"
    unfolding d .
  moreover from C6_generator_not_running [OF r2 n2] f2
  have "periodic_monitoring (shore_bus 2) (demo_state 2 50 30) = (Done, shore_bus 2, demo_state 2 50 30)"
    by blast
  ultimately show ?thesis by simp
qed

subsection \<open>Auto-mode unknown\<close>

lemma sync_to_writes_ac:
  "list_all to_ac_input_limit (new_writes b (bus_of (sync_generator_limit_to_ac_input b s)))"
  by (simp add: sync_generator_limit_to_ac_input_def new_writes_def bus_of_def Let_def
        set_dbus_value_def to_ac_input_limit_def truthy_def
        split: option.splits sum.splits)

text \<open>
  Claim C10. On a tick whose readings leave the stored auto-mode state at its initial
  \<^verbatim>\<open>None\<close>, the guard of step 2 (state 2) and the guard of step 3 (state 3) both
  fail: the two steps write nothing and change nothing on any bus, and the tick is step 1
  alone. Every write of the tick goes to the AC input limit, the state stays
  \<^verbatim>\<open>None\<close>, and no derated output is recorded as written.
\<close>

theorem C10_auto_mode_unknown:
  assumes "refresh_readings b s = (Done, b1, s1)"
    and "gen_auto_current_state s1 = None"
  shows "sync_from_ac_input_if_off b' s1 = (Done, b', s1)
       \<and> perform_derating_if_on b' s1 = (Done, b', s1)
       \<and> periodic_monitoring b s = sync_generator_limit_to_ac_input b s1
       \<and> list_all to_ac_input_limit (new_writes b (bus_of (periodic_monitoring b s)))
       \<and> gen_auto_current_state (state_of (periodic_monitoring b s)) = None
       \<and> initial_derated_output_logged (state_of (periodic_monitoring b s))
           = initial_derated_output_logged s1"
proof -
  have b1: "b1 = b" using assms(1) by (rule refresh_readings_DoneD)
  have g: "sync_from_ac_input_if_off b' t = (Done, b', t)"
      "perform_derating_if_on b' t = (Done, b', t)"
    if "gen_auto_current_state t = None" for b' t
    using that by (simp_all add: sync_from_ac_input_if_off_def perform_derating_if_on_def)
  have k: "gen_auto_current_state (state_of (sync_generator_limit_to_ac_input b s1)) = None
         \<and> initial_derated_output_logged (state_of (sync_generator_limit_to_ac_input b s1))
             = initial_derated_output_logged s1"
    using assms(2)
    by (simp add: sync_generator_limit_to_ac_input_def state_of_def Let_def
          split: option.splits sum.splits)
  obtain out b2 s2 where r: "sync_generator_limit_to_ac_input b s1 = (out, b2, s2)"
    by (cases "sync_generator_limit_to_ac_input b s1") auto
  with k have n2: "gen_auto_current_state s2 = None" by (simp add: state_of_def)
  have pm: "periodic_monitoring b s = sync_generator_limit_to_ac_input b s1"
    using assms(1) b1 r g[OF n2]
    by (cases out) (simp_all add: periodic_monitoring_split limit_synchronizer_def)
  show ?thesis
    using g[OF assms(2)] pm k sync_to_writes_ac[of b s1] by simp
qed

lemma unknown_mode_state_eq:
  "unknown_mode_state =
     init_state\<lparr>vebus_service := Some ''vebus'', transfer_switch_service := Some ''ts'',
                previous_ac_current_limit := Some 50,
                previous_generator_current_limit_setting := Some 50\<rparr>"
  by (simp add: unknown_mode_state_def no_auto_bus_def eval_defs)

text \<open>
  Witness for C10: after a start-up without a Gen Auto Current input the state is
  \<^verbatim>\<open>None\<close>; when the generator limit setting then changes to 54.6 A, the one write
  of the tick is step 1 writing 54.6 A to the AC input limit.
\<close>

theorem C10_auto_mode_unknown_witness:
  "gen_auto_current_state unknown_mode_state = None
   \<and> new_writes (no_auto_bus 54.6) (bus_of (periodic_monitoring (no_auto_bus 54.6) unknown_mode_state))
       = [(''vebus'', AC_ACTIVE_INPUT_CURRENT_LIMIT_PATH, 54.6)]"
proof -
  have n: "gen_auto_current_state unknown_mode_state = None"
    by (simp add: unknown_mode_state_eq init_state_def)
  have r: "refresh_readings (no_auto_bus 54.6) unknown_mode_state
             = (Done, no_auto_bus 54.6, unknown_mode_state)"
    by (simp add: unknown_mode_state_eq no_auto_bus_def eval_defs)
  have w: "new_writes (no_auto_bus 54.6)
             (bus_of (sync_generator_limit_to_ac_input (no_auto_bus 54.6) unknown_mode_state))
           = [(''vebus'', AC_ACTIVE_INPUT_CURRENT_LIMIT_PATH, 54.6)]"
    by (simp add: unknown_mode_state_eq no_auto_bus_def eval_defs)
  from C10_auto_mode_unknown [OF r n]
  have "periodic_monitoring (no_auto_bus 54.6) unknown_mode_state
          = sync_generator_limit_to_ac_input (no_auto_bus 54.6) unknown_mode_state"
    by blast
  with w n show ?thesis by simp
qed

subsection \<open>Malformed values\<close>

text \<open>
  Claim C9 at a failing input. The outdoor temperature sensor delivers an empty array
  where a number is expected: \<^verbatim>\<open>_update_outdoor_temperature\<close> computes
  \<^verbatim>\<open>temp_celsius * 9/5\<close> outside any \<^verbatim>\<open>try\<close>, the TypeError leaves
  \<^verbatim>\<open>_periodic_monitoring\<close>, and the tick ends before any synchronizer step. The same
  malformed value on the altitude path is caught inside \<^verbatim>\<open>_update_altitude\<close>: that
  tick runs to completion and keeps the stored altitude.
\<close>

theorem C9_invalid_temperature_raises:
  "periodic_monitoring invalid_temperature_bus (demo_state 3 50 50)
     = (Raised TypeError, invalid_temperature_bus,
        (demo_state 3 50 50)\<lparr>outdoor_temp_service_name := Some ''temp''\<rparr>)
   \<and> outcome_of (periodic_monitoring invalid_altitude_bus (demo_state 3 50 50)) = Done
   \<and> altitude_feet (state_of (periodic_monitoring invalid_altitude_bus (demo_state 3 50 50)))
       = Some 1000"
  by (simp add: invalid_temperature_bus_def invalid_altitude_bus_def eval_defs)

subsection \<open>The environmental sample is always populated\<close>


text \<open>Frames: what each statement leaves alone.\<close>

lemma rediscover_frame:
  "bus_of (rediscover b s) = b"
  "outdoor_temp_fahrenheit (state_of (rediscover b s)) = outdoor_temp_fahrenheit s"
  "altitude_feet (state_of (rediscover b s)) = altitude_feet s"
  "generator_temp_fahrenheit (state_of (rediscover b s)) = generator_temp_fahrenheit s"
  "outdoor_temp_service_name (state_of (rediscover b s)) =
     (if truthy (outdoor_temp_service_name s) then outdoor_temp_service_name s
      else resolve b OutdoorTemp)"
  by (simp_all add: rediscover_def bus_of_def state_of_def Let_def find_service_once_def
        find_vebus_service_def find_outdoor_temperature_service_def
        find_generator_temperature_service_def find_gps_service_internal_def
        find_transfer_switch_input_internal_def find_gen_auto_current_input_internal_def)







lemma update_altitude_frame:
  "bus_of (update_altitude lu li b s) = b"
  "outdoor_temp_service_name (state_of (update_altitude lu li b s)) = outdoor_temp_service_name s"
  "outdoor_temp_fahrenheit (state_of (update_altitude lu li b s)) = outdoor_temp_fahrenheit s"
  "generator_temp_fahrenheit (state_of (update_altitude lu li b s)) = generator_temp_fahrenheit s"
  by (simp_all add: update_altitude_def state_of_def bus_of_def Let_def
        altitude_failed_def altitude_store_def
        split: option.splits sum.splits dval.splits list.splits)


lemma resolve_set_dbus_value [simp]: "resolve (set_dbus_value b n p v) = resolve b"
  by (simp add: set_dbus_value_def split: option.splits)
























lemma rediscover_services:
  "gps_service_name (state_of (rediscover b s)) = service_in_tick (gps_service_name s) (resolve b Gps)"
  "generator_temp_service_name (state_of (rediscover b s))
     = service_in_tick (generator_temp_service_name s) (resolve b GeneratorTemp)"
  "outdoor_temp_service_name (state_of (rediscover b s))
     = service_in_tick (outdoor_temp_service_name s) (resolve b OutdoorTemp)"
  by (simp_all add: rediscover_def bus_of_def state_of_def Let_def find_service_once_def
        service_in_tick_def
        find_vebus_service_def find_outdoor_temperature_service_def
        find_generator_temperature_service_def find_gps_service_internal_def
        find_transfer_switch_input_internal_def find_gen_auto_current_input_internal_def)

lemma rediscover_Done: "outcome_of (rediscover b s) = Done"
  by (simp add: rediscover_def outcome_of_def Let_def)





lemma update_altitude_outcome: "outcome_of (update_altitude lu li b s) = Done"
  by (simp add: update_altitude_def outcome_of_def
        split: option.splits sum.splits dval.splits list.splits)















subsection \<open>The synchronizer settles\<close>

lemma get_after_set:
  "get_dbus_value (set_dbus_value b n p v) m q =
     (if truthy n \<and> n = m \<and> p = q \<and> accepts b (the n, p) then Some (DDouble v)
      else get_dbus_value b m q)"
  by (auto simp: get_dbus_value_def set_dbus_value_def truthy_def split: option.splits)

lemma accepts_set_dbus_value [simp]: "accepts (set_dbus_value b n p v) = accepts b"
  by (simp add: set_dbus_value_def split: option.splits)

lemma running_set_dbus_value [simp]:
  "p \<noteq> STATE_PATH \<Longrightarrow> is_generator_running (set_dbus_value b n p v) s = is_generator_running b s"
  by (simp add: is_generator_running_def get_after_set)

lemma running_trackers [simp]:
  "is_generator_running b (s\<lparr>previous_ac_current_limit := x\<rparr>) = is_generator_running b s"
  "is_generator_running b (s\<lparr>previous_generator_current_limit_setting := x\<rparr>)
     = is_generator_running b s"
  "is_generator_running b (s\<lparr>initial_derated_output_logged := y\<rparr>) = is_generator_running b s"
  by (simp_all add: is_generator_running_def)

lemma gen_limit_set_ac [simp]:
  "gen_limit_value (set_dbus_value b n AC_ACTIVE_INPUT_CURRENT_LIMIT_PATH v) = gen_limit_value b"
  by (simp add: gen_limit_value_def get_after_set)

lemma gen_limit_set_gen:
  "accepts b (SETTINGS_SERVICE_NAME, GENERATOR_CURRENT_LIMIT_PATH) \<Longrightarrow>
   gen_limit_value (set_dbus_value b (Some SETTINGS_SERVICE_NAME) GENERATOR_CURRENT_LIMIT_PATH v)
     = Some (DDouble v)"
  by (simp add: gen_limit_value_def get_after_set truthy_def)

lemma ac_limit_set_gen [simp]:
  "get_dbus_value (set_dbus_value b n GENERATOR_CURRENT_LIMIT_PATH v) m AC_ACTIVE_INPUT_CURRENT_LIMIT_PATH
     = get_dbus_value b m AC_ACTIVE_INPUT_CURRENT_LIMIT_PATH"
  by (simp add: get_after_set)

lemma new_writes_self [simp]: "new_writes b b = []"
  by (simp add: new_writes_def)

lemma new_writes_set:
  "truthy n \<Longrightarrow> new_writes b (set_dbus_value b n p v) = [(the n, p, v)]"
  by (auto simp: new_writes_def set_dbus_value_def truthy_def split: option.splits)



lemma sync_to_unfold:
  "sync_generator_limit_to_ac_input b s =
     (if sync_enabled b s then
        (case gen_limit_value b of
           Some g \<Rightarrow>
             (case py_float g of
                Inl e \<Rightarrow> (Raised e, b, s)
              | Inr x \<Rightarrow>
                  if (case previous_generator_current_limit_setting s of
                        None \<Rightarrow> True
                      | Some p \<Rightarrow> differs (p - py_round1 x))
                  then (Done,
                        set_dbus_value b (vebus_service s) AC_ACTIVE_INPUT_CURRENT_LIMIT_PATH (py_round1 x),
                        s\<lparr>previous_ac_current_limit := Some (py_round1 x),
                          previous_generator_current_limit_setting := Some (py_round1 x)\<rparr>)
                  else (Done, b, s))
         | None \<Rightarrow> (Done, b, s))
      else (Done, b, s))"
  unfolding sync_generator_limit_to_ac_input_def sync_enabled_def gen_limit_value_def Let_def
  by simp

lemma step1_quietD: "step1_quiet b s \<Longrightarrow> sync_generator_limit_to_ac_input b s = (Done, b, s)"
  by (auto simp: sync_to_unfold step1_quiet_def split: option.splits sum.splits)

lemma sync_to_cases:
  assumes r: "sync_generator_limit_to_ac_input b s = (Done, b', s')"
  obtains (quiet) "b' = b" "s' = s" "step1_quiet b s"
  | (push) g x where "\<not> step1_quiet b s" "sync_enabled b s" "gen_limit_value b = Some g"
      "py_float g = Inr x"
      "b' = set_dbus_value b (vebus_service s) AC_ACTIVE_INPUT_CURRENT_LIMIT_PATH (py_round1 x)"
      "s' = s\<lparr>previous_ac_current_limit := Some (py_round1 x),
               previous_generator_current_limit_setting := Some (py_round1 x)\<rparr>"
proof (cases "step1_quiet b s")
  case True
  with r step1_quietD[OF True] show ?thesis by (intro quiet) simp_all
next
  case False
  then have en: "sync_enabled b s" by (simp add: step1_quiet_def)
  from False en obtain g where g: "gen_limit_value b = Some g"
    by (cases "gen_limit_value b") (simp_all add: step1_quiet_def)
  from r en g obtain x where x: "py_float g = Inr x"
    by (cases "py_float g") (simp_all add: sync_to_unfold)
  from False en g x have c: "(case previous_generator_current_limit_setting s of
                        None \<Rightarrow> True
                      | Some p \<Rightarrow> differs (p - py_round1 x))"
    by (simp add: step1_quiet_def split: option.splits)
  from r en g x c False show ?thesis
    by (intro push[of g x]) (auto simp: sync_to_unfold)
qed


lemma perform_derating_unfold:
  "perform_derating b s =
     (if populated s then
        (if \<not> initial_derated_output_logged s
         then (Done,
               set_dbus_value b (Some SETTINGS_SERVICE_NAME) GENERATOR_CURRENT_LIMIT_PATH (derated_output s),
               s\<lparr>initial_derated_output_logged := True\<rparr>)
         else
           (case gen_limit_value b of
              None \<Rightarrow>
                (Done,
                 set_dbus_value b (Some SETTINGS_SERVICE_NAME) GENERATOR_CURRENT_LIMIT_PATH (derated_output s),
                 s)
            | Some g \<Rightarrow>
                (case py_sub g (derated_output s) of
                   Inl e \<Rightarrow> (Raised e, b, s)
                 | Inr d \<Rightarrow>
                     if differs d
                     then (Done,
                           set_dbus_value b (Some SETTINGS_SERVICE_NAME) GENERATOR_CURRENT_LIMIT_PATH
                             (derated_output s),
                           s)
                     else (Done, b, s))))
      else (Done, b, s))"
  unfolding perform_derating_def populated_def gen_limit_value_def derated_output_def Let_def
  by simp

lemma step3_quietD: "step3_quiet b s \<Longrightarrow> perform_derating b s = (Done, b, s)"
  by (auto simp: perform_derating_unfold step3_quiet_def split: option.splits sum.splits)

lemma perform_derating_cases:
  assumes r: "perform_derating b s = (Done, b', s')"
  obtains (quiet) "b' = b" "s' = s" "step3_quiet b s"
  | (wrote) "populated s"
      "b' = set_dbus_value b (Some SETTINGS_SERVICE_NAME) GENERATOR_CURRENT_LIMIT_PATH (derated_output s)"
      "s' = s\<lparr>initial_derated_output_logged := True\<rparr>"
proof (cases "step3_quiet b s")
  case True
  with r step3_quietD[OF True] show ?thesis by (intro quiet) simp_all
next
  case False
  then have p: "populated s" by (simp add: step3_quiet_def)
  show ?thesis
  proof (cases "initial_derated_output_logged s")
    case f: False
    with r p show ?thesis by (intro wrote) (auto simp: perform_derating_unfold)
  next
    case t: True
    then have e: "s\<lparr>initial_derated_output_logged := True\<rparr> = s" by simp
    show ?thesis
    proof (cases "gen_limit_value b")
      case None
      with r p t e show ?thesis by (intro wrote) (auto simp: perform_derating_unfold)
    next
      case (Some g)
      from r p t Some obtain d where d: "py_sub g (derated_output s) = Inr d"
        by (cases "py_sub g (derated_output s)") (simp_all add: perform_derating_unfold)
      from False p t Some d have "differs d" by (simp add: step3_quiet_def)
      with r p t e Some d show ?thesis by (intro wrote) (auto simp: perform_derating_unfold)
    qed
  qed
qed

lemma sync_from_unfold:
  "sync_generator_limit_from_ac_input b s =
     (if sync_enabled b s then
        (case get_dbus_value b (vebus_service s) AC_ACTIVE_INPUT_CURRENT_LIMIT_PATH of
           Some a \<Rightarrow>
             (case py_float a of
                Inl e \<Rightarrow> (Raised e, b, s)
              | Inr x \<Rightarrow>
                  if (case previous_ac_current_limit s of
                        None \<Rightarrow> True
                      | Some p \<Rightarrow> differs (py_round1 x - p))
                  then
                    (case gen_limit_value b of
                       None \<Rightarrow>
                         (Done,
                          set_dbus_value b (Some SETTINGS_SERVICE_NAME) GENERATOR_CURRENT_LIMIT_PATH
                            (py_round1 x),
                          s\<lparr>previous_generator_current_limit_setting := Some (py_round1 x),
                            previous_ac_current_limit := Some (py_round1 x)\<rparr>)
                     | Some g \<Rightarrow>
                         (case py_sub g (py_round1 x) of
                            Inl e \<Rightarrow> (Raised e, b, s)
                          | Inr d \<Rightarrow>
                              if differs d
                              then (Done,
                                    set_dbus_value b (Some SETTINGS_SERVICE_NAME)
                                      GENERATOR_CURRENT_LIMIT_PATH (py_round1 x),
                                    s\<lparr>previous_generator_current_limit_setting := Some (py_round1 x),
                                      previous_ac_current_limit := Some (py_round1 x)\<rparr>)
                              else (Done, b, s\<lparr>previous_ac_current_limit := Some (py_round1 x)\<rparr>)))
                  else (Done, b, s))
         | None \<Rightarrow> (Done, b, s))
      else (Done, b, s))"
  unfolding sync_generator_limit_from_ac_input_def sync_enabled_def gen_limit_value_def Let_def
  by simp

lemma step2_quietD: "step2_quiet b s \<Longrightarrow> sync_generator_limit_from_ac_input b s = (Done, b, s)"
  by (auto simp: sync_from_unfold step2_quiet_def split: option.splits sum.splits)

lemma sync_from_cases:
  assumes r: "sync_generator_limit_from_ac_input b s = (Done, b', s')"
  obtains (quiet) "b' = b" "s' = s" "step2_quiet b s"
  | (seen) a x where "sync_enabled b s"
      "get_dbus_value b (vebus_service s) AC_ACTIVE_INPUT_CURRENT_LIMIT_PATH = Some a"
      "py_float a = Inr x" "b' = b"
      "s' = s\<lparr>previous_ac_current_limit := Some (py_round1 x)\<rparr>"
  | (wrote) a x where "sync_enabled b s"
      "get_dbus_value b (vebus_service s) AC_ACTIVE_INPUT_CURRENT_LIMIT_PATH = Some a"
      "py_float a = Inr x"
      "b' = set_dbus_value b (Some SETTINGS_SERVICE_NAME) GENERATOR_CURRENT_LIMIT_PATH (py_round1 x)"
      "s' = s\<lparr>previous_generator_current_limit_setting := Some (py_round1 x),
               previous_ac_current_limit := Some (py_round1 x)\<rparr>"
proof (cases "step2_quiet b s")
  case True
  with r step2_quietD[OF True] show ?thesis by (intro quiet) simp_all
next
  case False
  then have en: "sync_enabled b s" by (simp add: step2_quiet_def)
  from False en obtain a where
    a: "get_dbus_value b (vebus_service s) AC_ACTIVE_INPUT_CURRENT_LIMIT_PATH = Some a"
    by (cases "get_dbus_value b (vebus_service s) AC_ACTIVE_INPUT_CURRENT_LIMIT_PATH")
       (simp_all add: step2_quiet_def)
  from r en a obtain x where x: "py_float a = Inr x"
    by (cases "py_float a") (simp_all add: sync_from_unfold)
  from False en a x have c: "(case previous_ac_current_limit s of
                        None \<Rightarrow> True
                      | Some p \<Rightarrow> differs (py_round1 x - p))"
    by (simp add: step2_quiet_def split: option.splits)
  show ?thesis
  proof (cases "gen_limit_value b")
    case None
    with r en a x c show ?thesis by (intro wrote[of a x]) (auto simp: sync_from_unfold)
  next
    case (Some g)
    from r en a x c Some obtain d where d: "py_sub g (py_round1 x) = Inr d"
      by (cases "py_sub g (py_round1 x)") (simp_all add: sync_from_unfold)
    show ?thesis
    proof (cases "differs d")
      case True
      with r en a x c Some d show ?thesis by (intro wrote[of a x]) (auto simp: sync_from_unfold)
    next
      case False
      with r en a x c Some d show ?thesis by (intro seen[of a x]) (auto simp: sync_from_unfold)
    qed
  qed
qed


lemma step1_quiet_cong:
  "guard_part b' s' = guard_part b s \<Longrightarrow> gen_limit_value b' = gen_limit_value b \<Longrightarrow>
   previous_generator_current_limit_setting s' = previous_generator_current_limit_setting s \<Longrightarrow>
   step1_quiet b' s' = step1_quiet b s"
  by (simp add: step1_quiet_def sync_enabled_def guard_part_def
        cong: option.case_cong sum.case_cong)

lemma step3_quiet_cong:
  "guard_part b' s' = guard_part b s \<Longrightarrow> gen_limit_value b' = gen_limit_value b \<Longrightarrow>
   initial_derated_output_logged s' = initial_derated_output_logged s \<Longrightarrow>
   step3_quiet b' s' = step3_quiet b s"
  by (simp add: step3_quiet_def populated_def derated_output_def guard_part_def
        cong: option.case_cong sum.case_cong)

lemma derated_output_cong:
  "guard_part b' s' = guard_part b s \<Longrightarrow> derated_output s' = derated_output s"
  by (simp add: derated_output_def guard_part_def)

lemma derated_output_rounded: "py_round1 (derated_output s) = derated_output s"
  by (simp add: derated_output_def py_round1_idem)

lemma differs_zero [simp]: "\<not> differs 0"
  by (simp add: differs_def)

text \<open>Step 1, when it returns.\<close>

lemma sync_to_post:
  assumes r: "sync_generator_limit_to_ac_input b s = (Done, b', s')"
  shows "step1_quiet b' s'"
    and "guard_part b' s' = guard_part b s"
    and "gen_limit_value b' = gen_limit_value b"
    and "initial_derated_output_logged s' = initial_derated_output_logged s"
proof -
  show "step1_quiet b' s'"
    using r by (cases rule: sync_to_cases) (simp_all add: step1_quiet_def sync_enabled_def)
  show "guard_part b' s' = guard_part b s"
    using r by (cases rule: sync_to_cases) (simp_all add: guard_part_def)
  show "gen_limit_value b' = gen_limit_value b"
    using r by (cases rule: sync_to_cases) simp_all
  show "initial_derated_output_logged s' = initial_derated_output_logged s"
    using r by (cases rule: sync_to_cases) simp_all
qed

text \<open>Step 3, when it returns on a bus that accepts the write.\<close>

lemma perform_derating_post:
  assumes r: "perform_derating b s = (Done, b', s')"
  shows "guard_part b' s' = guard_part b s"
    and "previous_generator_current_limit_setting s' = previous_generator_current_limit_setting s"
    and "accepts b (SETTINGS_SERVICE_NAME, GENERATOR_CURRENT_LIMIT_PATH) \<Longrightarrow> step3_quiet b' s'"
    and "gen_limit_value b' = gen_limit_value b
         \<or> (accepts b (SETTINGS_SERVICE_NAME, GENERATOR_CURRENT_LIMIT_PATH) \<longrightarrow>
              gen_limit_value b' = Some (DDouble (derated_output s)))"
proof -
  show "guard_part b' s' = guard_part b s"
    using r by (cases rule: perform_derating_cases) (simp_all add: guard_part_def)
  show "previous_generator_current_limit_setting s' = previous_generator_current_limit_setting s"
    using r by (cases rule: perform_derating_cases) simp_all
  show "step3_quiet b' s'" if "accepts b (SETTINGS_SERVICE_NAME, GENERATOR_CURRENT_LIMIT_PATH)"
    using r that
    by (cases rule: perform_derating_cases)
       (simp_all add: step3_quiet_def gen_limit_set_gen populated_def derated_output_def)
  show "gen_limit_value b' = gen_limit_value b
         \<or> (accepts b (SETTINGS_SERVICE_NAME, GENERATOR_CURRENT_LIMIT_PATH) \<longrightarrow>
              gen_limit_value b' = Some (DDouble (derated_output s)))"
    using r by (cases rule: perform_derating_cases) (simp_all add: gen_limit_set_gen)
qed

text \<open>Step 2, when it returns on a bus that accepts the write.\<close>

lemma sync_from_post:
  assumes r: "sync_generator_limit_from_ac_input b s = (Done, b', s')"
  shows "guard_part b' s' = guard_part b s"
    and "step2_quiet b' s'"
    and "accepts b (SETTINGS_SERVICE_NAME, GENERATOR_CURRENT_LIMIT_PATH) \<Longrightarrow>
         step1_quiet b s \<Longrightarrow> step1_quiet b' s'"
proof -
  show "guard_part b' s' = guard_part b s"
    using r by (cases rule: sync_from_cases) (simp_all add: guard_part_def)
  show "step2_quiet b' s'"
    using r by (cases rule: sync_from_cases) (simp_all add: step2_quiet_def sync_enabled_def)
  show "step1_quiet b' s'"
    if acc: "accepts b (SETTINGS_SERVICE_NAME, GENERATOR_CURRENT_LIMIT_PATH)" and q: "step1_quiet b s"
    using r
  proof (cases rule: sync_from_cases)
    case quiet
    with q show ?thesis by simp
  next
    case (seen a x)
    have "step1_quiet b' s' = step1_quiet b s"
      by (rule step1_quiet_cong) (simp_all add: seen guard_part_def)
    with q show ?thesis by simp
  next
    case (wrote a x)
    then show ?thesis
      by (simp add: step1_quiet_def gen_limit_set_gen[OF acc] py_round1_idem)
  qed
qed


lemma mode_constants [simp]:
  "GEN_AUTO_CURRENT_ON \<noteq> GEN_AUTO_CURRENT_OFF" "GEN_AUTO_CURRENT_OFF \<noteq> GEN_AUTO_CURRENT_ON"
  by (simp_all add: GEN_AUTO_CURRENT_ON_def GEN_AUTO_CURRENT_OFF_def)

lemma limit_synchronizer_unfold:
  "limit_synchronizer b s =
     (case sync_generator_limit_to_ac_input b s of
        (Done, b1, s1) \<Rightarrow>
          (case sync_from_ac_input_if_off b1 s1 of
             (Done, b2, s2) \<Rightarrow> perform_derating_if_on b2 s2
           | (Raised e, b2, s2) \<Rightarrow> (Raised e, b2, s2))
      | (Raised e, b1, s1) \<Rightarrow> (Raised e, b1, s1))"
  by (simp add: limit_synchronizer_def split: prod.splits outcome.splits)

lemma limit_synchronizer_DoneE:
  assumes "limit_synchronizer b s = (Done, b', s')"
  obtains ba sa bb sb where
    "sync_generator_limit_to_ac_input b s = (Done, ba, sa)"
    "sync_from_ac_input_if_off ba sa = (Done, bb, sb)"
    "perform_derating_if_on bb sb = (Done, b', s')"
  using assms by (auto simp: limit_synchronizer_unfold split: prod.splits outcome.splits)

lemma sync_from_if_off_eq:
  "sync_from_ac_input_if_off b s =
     (if gen_auto_current_state s = Some GEN_AUTO_CURRENT_OFF
      then sync_generator_limit_from_ac_input b s else (Done, b, s))"
  by (simp add: sync_from_ac_input_if_off_def sync_from_unfold sync_enabled_def)

lemma guard_mode: "guard_part b' s' = guard_part b s \<Longrightarrow> gen_auto_current_state s' = gen_auto_current_state s"
  by (simp add: guard_part_def)

lemma guard_accepts:
  "guard_part b' s' = guard_part b s \<Longrightarrow>
   accepts b' (SETTINGS_SERVICE_NAME, GENERATOR_CURRENT_LIMIT_PATH)
     = accepts b (SETTINGS_SERVICE_NAME, GENERATOR_CURRENT_LIMIT_PATH)"
  by (simp add: guard_part_def)

text \<open>Auto-mode ON: the derating has settled after one run, the push to the AC input after two.\<close>

lemma settle_on:
  assumes acc: "accepts b (SETTINGS_SERVICE_NAME, GENERATOR_CURRENT_LIMIT_PATH)"
    and on: "gen_auto_current_state s = Some GEN_AUTO_CURRENT_ON"
    and r1: "limit_synchronizer b s = (Done, b1, s1)"
    and r2: "limit_synchronizer b1 s1 = (Done, b2, s2)"
  shows "limit_synchronizer b2 s2 = (Done, b2, s2)"
    and "new_writes b1 b2 = []
         \<or> (is_generator_running b s
             \<and> (\<exists>n. vebus_service s = Some n
                  \<and> new_writes b1 b2 = [(n, AC_ACTIVE_INPUT_CURRENT_LIMIT_PATH, derated_output s)]))"
proof -
  from r1 on obtain ba sa where
    a: "sync_generator_limit_to_ac_input b s = (Done, ba, sa)"
    and d1: "perform_derating ba sa = (Done, b1, s1)"
    by (elim limit_synchronizer_DoneE)
       (auto simp: sync_from_if_off_eq perform_derating_if_on_def guard_mode[OF sync_to_post(2)]
          split: if_splits)
  note ga = sync_to_post(2)[OF a]
  note g1 = perform_derating_post(1)[OF d1]
  have on1: "gen_auto_current_state s1 = Some GEN_AUTO_CURRENT_ON"
    using on guard_mode[OF ga] guard_mode[OF g1] by simp
  have acca: "accepts ba (SETTINGS_SERVICE_NAME, GENERATOR_CURRENT_LIMIT_PATH)"
    using acc guard_accepts[OF ga] by simp
  from r2 on1 obtain bc sc where
    c: "sync_generator_limit_to_ac_input b1 s1 = (Done, bc, sc)"
    and d2: "perform_derating bc sc = (Done, b2, s2)"
    by (elim limit_synchronizer_DoneE)
       (auto simp: sync_from_if_off_eq perform_derating_if_on_def guard_mode[OF sync_to_post(2)]
          split: if_splits)
  note gc = sync_to_post(2)[OF c]
  have q3: "step3_quiet b1 s1" by (rule perform_derating_post(3)[OF d1 acca])
  have "step3_quiet bc sc = step3_quiet b1 s1"
    by (rule step3_quiet_cong) (simp_all add: sync_to_post[OF c])
  with q3 have q3c: "step3_quiet bc sc" by simp
  with d2 have e2: "b2 = bc" "s2 = sc" by (simp_all add: step3_quietD)
  have q1c: "step1_quiet bc sc" by (rule sync_to_post(1)[OF c])
  have onc: "gen_auto_current_state sc = Some GEN_AUTO_CURRENT_ON"
    using on1 guard_mode[OF gc] by simp
  show "limit_synchronizer b2 s2 = (Done, b2, s2)"
    unfolding e2
    by (simp add: limit_synchronizer_unfold step1_quietD[OF q1c] sync_from_if_off_eq onc
          perform_derating_if_on_def step3_quietD[OF q3c])
  show "new_writes b1 b2 = []
         \<or> (is_generator_running b s
             \<and> (\<exists>n. vebus_service s = Some n
                  \<and> new_writes b1 b2 = [(n, AC_ACTIVE_INPUT_CURRENT_LIMIT_PATH, derated_output s)]))"
    using c
  proof (cases rule: sync_to_cases)
    case quiet
    then show ?thesis by (simp add: e2)
  next
    case (push g x)
    have q1a: "step1_quiet ba sa" by (rule sync_to_post(1)[OF a])
    have "gen_limit_value b1 \<noteq> gen_limit_value ba"
    proof
      assume "gen_limit_value b1 = gen_limit_value ba"
      then have "step1_quiet b1 s1 = step1_quiet ba sa"
        by (intro step1_quiet_cong g1 perform_derating_post(2)[OF d1])
      with q1a push(1) show False by simp
    qed
    with perform_derating_post(4)[OF d1] acca
    have "gen_limit_value b1 = Some (DDouble (derated_output sa))" by blast
    with push(3,4) have x: "x = derated_output sa" by auto
    have ds: "derated_output sa = derated_output s" by (rule derated_output_cong[OF ga])
    have en: "sync_enabled b s"
      using push(2) ga g1 by (simp add: sync_enabled_def guard_part_def)
    then obtain n where n: "vebus_service s = Some n" "n \<noteq> []"
      by (auto simp: sync_enabled_def truthy_def split: option.splits)
    have v1: "vebus_service s1 = Some n" using n ga g1 by (simp add: guard_part_def)
    have "new_writes b1 b2 = [(n, AC_ACTIVE_INPUT_CURRENT_LIMIT_PATH, derated_output s)]"
      using n by (simp add: e2 push(5) v1 new_writes_set truthy_def x ds derated_output_rounded)
    with en n show ?thesis by (simp add: sync_enabled_def)
  qed
qed


text \<open>Auto-mode not ON: one run settles both sync steps.\<close>

lemma settle_not_on:
  assumes acc: "accepts b (SETTINGS_SERVICE_NAME, GENERATOR_CURRENT_LIMIT_PATH)"
    and off: "gen_auto_current_state s \<noteq> Some GEN_AUTO_CURRENT_ON"
    and r1: "limit_synchronizer b s = (Done, b1, s1)"
  shows "limit_synchronizer b1 s1 = (Done, b1, s1)"
proof -
  from r1 obtain ba sa where
    a: "sync_generator_limit_to_ac_input b s = (Done, ba, sa)"
    and f: "sync_from_ac_input_if_off ba sa = (Done, b1, s1)"
    using off
    by (elim limit_synchronizer_DoneE)
       (auto simp: sync_from_if_off_eq perform_derating_if_on_def guard_mode[OF sync_to_post(2)]
          guard_mode[OF sync_from_post(1)] split: if_splits)
  note ga = sync_to_post(2)[OF a]
  have q1a: "step1_quiet ba sa" by (rule sync_to_post(1)[OF a])
  have acca: "accepts ba (SETTINGS_SERVICE_NAME, GENERATOR_CURRENT_LIMIT_PATH)"
    using acc guard_accepts[OF ga] by simp
  show ?thesis
  proof (cases "gen_auto_current_state sa = Some GEN_AUTO_CURRENT_OFF")
    case True
    with f have f': "sync_generator_limit_from_ac_input ba sa = (Done, b1, s1)"
      by (simp add: sync_from_if_off_eq)
    note g1 = sync_from_post(1)[OF f']
    have m1: "gen_auto_current_state s1 = Some GEN_AUTO_CURRENT_OFF"
      using True guard_mode[OF g1] by simp
    have q1: "step1_quiet b1 s1" by (rule sync_from_post(3)[OF f' acca q1a])
    have q2: "step2_quiet b1 s1" by (rule sync_from_post(2)[OF f'])
    show ?thesis
      by (simp add: limit_synchronizer_unfold step1_quietD[OF q1] sync_from_if_off_eq m1
            step2_quietD[OF q2] perform_derating_if_on_def)
  next
    case False
    with f have e: "b1 = ba" "s1 = sa" by (simp_all add: sync_from_if_off_eq)
    have m1: "gen_auto_current_state sa \<noteq> Some GEN_AUTO_CURRENT_ON"
      using off guard_mode[OF ga] by simp
    show ?thesis
      unfolding e
      using False m1
      by (simp add: limit_synchronizer_unfold step1_quietD[OF q1a] sync_from_if_off_eq
            perform_derating_if_on_def)
  qed
qed

lemma ac_write_not_generator_limit [simp]:
  "\<not> to_generator_limit (n, AC_ACTIVE_INPUT_CURRENT_LIMIT_PATH, v)"
  by (simp add: to_generator_limit_def)

text \<open>
  Claim C5, amended. For every controller state, on a bus that accepts writes to the
  generator limit setting, run the three synchronizer steps in order again and again with
  no external change (the set-points change only by the monitor's own writes, and the
  stored sample, hence the derated output, is the same on every run). If the first two
  runs return, the second run writes nothing to the generator limit setting and at most
  once to the AC input limit: with auto-mode ON and the generator running, step 1 pushes
  the derated value the first run wrote. The third run writes nothing and changes
  nothing. With auto-mode not ON the second run already writes nothing.
\<close>

theorem C5_settles_by_third_run:
  assumes "accepts b (SETTINGS_SERVICE_NAME, GENERATOR_CURRENT_LIMIT_PATH)"
    and "limit_synchronizer b s = (Done, b1, s1)"
    and "limit_synchronizer b1 s1 = (Done, b2, s2)"
  shows "limit_synchronizer b2 s2 = (Done, b2, s2)
       \<and> filter to_generator_limit (new_writes b1 b2) = []
       \<and> (new_writes b1 b2 = []
            \<or> (gen_auto_current_state s = Some GEN_AUTO_CURRENT_ON
                \<and> is_generator_running b s
                \<and> (\<exists>n. vebus_service s = Some n
                     \<and> new_writes b1 b2
                         = [(n, AC_ACTIVE_INPUT_CURRENT_LIMIT_PATH, derated_output s)])))
       \<and> (gen_auto_current_state s \<noteq> Some GEN_AUTO_CURRENT_ON \<longrightarrow> b2 = b1 \<and> s2 = s1)"
proof (cases "gen_auto_current_state s = Some GEN_AUTO_CURRENT_ON")
  case True
  from settle_on[OF assms(1) True assms(2,3)] True show ?thesis by auto
next
  case False
  from settle_not_on[OF assms(1) False assms(2)] assms(3)
  have e: "b2 = b1" "s2 = s1" by simp_all
  with assms(3) False show ?thesis by simp
qed


lemma due_run1_eq:
  "due_run1 =
     (Done,
      set_dbus_value (demo_bus 3 50 50) (Some SETTINGS_SERVICE_NAME) GENERATOR_CURRENT_LIMIT_PATH 54.6,
      derating_due_state)"
  by (simp add: due_run1_def derating_due_state_def eval_defs)

lemma due_run2_eq:
  "due_run2 =
     (Done,
      set_dbus_value
        (set_dbus_value (demo_bus 3 50 50) (Some SETTINGS_SERVICE_NAME) GENERATOR_CURRENT_LIMIT_PATH 54.6)
        (Some ''vebus'') AC_ACTIVE_INPUT_CURRENT_LIMIT_PATH 54.6,
      derating_due_state\<lparr>previous_ac_current_limit := Some 54.6,
                          previous_generator_current_limit_setting := Some 54.6\<rparr>)"
  by (simp add: due_run2_def due_run1_eq) (simp add: derating_due_state_def eval_defs)

text \<open>
  Claim C5, as stated, fails with auto-mode ON and the generator running when the setting
  is away from the derated output: both runs return, the derated output is the same, the
  first run writes 54.6 A to the generator limit setting in step 3, and the second run
  writes 54.6 A to the AC input limit in step 1.
\<close>

theorem C5_second_run_writes_counterexample:
  "outcome_of due_run1 = Done \<and> outcome_of due_run2 = Done
   \<and> derated_output (state_of due_run1) = derated_output derating_due_state
   \<and> new_writes (demo_bus 3 50 50) (bus_of due_run1)
       = [(SETTINGS_SERVICE_NAME, GENERATOR_CURRENT_LIMIT_PATH, 54.6)]
   \<and> new_writes (bus_of due_run1) (bus_of due_run2)
       = [(''vebus'', AC_ACTIVE_INPUT_CURRENT_LIMIT_PATH, 54.6)]"
  by (simp add: due_run1_eq due_run2_eq outcome_of_def bus_of_def state_of_def new_writes_def
        set_dbus_value_def demo_bus_def path_defs)

text \<open>
  Witness for C5: from the same state, the third run is the identity and the second run
  wrote nothing to the generator limit setting.
\<close>

theorem C5_settles_by_third_run_witness:
  "limit_synchronizer (bus_of due_run2) (state_of due_run2)
     = (Done, bus_of due_run2, state_of due_run2)
   \<and> filter to_generator_limit (new_writes (bus_of due_run1) (bus_of due_run2)) = []"
proof -
  have acc: "accepts (demo_bus 3 50 50) (SETTINGS_SERVICE_NAME, GENERATOR_CURRENT_LIMIT_PATH)"
    by (simp add: demo_bus_def)
  have r1: "limit_synchronizer (demo_bus 3 50 50) derating_due_state
              = (Done, bus_of due_run1, state_of due_run1)"
    using due_run1_eq by (simp add: due_run1_def bus_of_def state_of_def)
  have r2: "limit_synchronizer (bus_of due_run1) (state_of due_run1)
              = (Done, bus_of due_run2, state_of due_run2)"
    using due_run2_eq by (simp add: due_run2_def bus_of_def state_of_def)
  from C5_settles_by_third_run [OF acc r1 r2] show ?thesis by blast
qed

subsection \<open>Steady readings\<close>

lemma reads_inputs_only_run:
  "list_all reads_inputs_only fs \<Longrightarrow> reads_inputs_only (run_statements fs)"
proof (induction fs)
  case Nil
  then show ?case by (simp add: reads_inputs_only_def outcome_of_def bus_of_def state_of_def)
next
  case (Cons f fs)
  then have f: "reads_inputs_only f" and fs: "reads_inputs_only (run_statements fs)" by simp_all
  show ?case unfolding reads_inputs_only_def
  proof (intro allI impI)
    fix b b' s t
    assume h: "sensor_part b = sensor_part b' \<and> inputs_view s = inputs_view t"
    obtain o1 b1 s1 where r1: "f b s = (o1, b1, s1)" by (cases "f b s") auto
    obtain o2 b2 s2 where r2: "f b' t = (o2, b2, s2)" by (cases "f b' t") auto
    from f h have "outcome_of (f b s) = outcome_of (f b' t)
        \<and> inputs_view (state_of (f b s)) = inputs_view (state_of (f b' t))
        \<and> bus_of (f b s) = b \<and> trackers (state_of (f b s)) = trackers s"
      unfolding reads_inputs_only_def by blast
    with r1 r2 have e: "o2 = o1" "inputs_view s1 = inputs_view s2" "b1 = b" "trackers s1 = trackers s"
      by (simp_all add: outcome_of_def bus_of_def state_of_def)
    from f h have "bus_of (f b' t) = b'"
      unfolding reads_inputs_only_def by metis
    with r2 have b2: "b2 = b'" by (simp add: bus_of_def)
    show "outcome_of (run_statements (f # fs) b s) = outcome_of (run_statements (f # fs) b' t)
        \<and> inputs_view (state_of (run_statements (f # fs) b s))
            = inputs_view (state_of (run_statements (f # fs) b' t))
        \<and> bus_of (run_statements (f # fs) b s) = b
        \<and> trackers (state_of (run_statements (f # fs) b s)) = trackers s"
    proof (cases o1)
      case Done
      from fs h e have "outcome_of (run_statements fs b s1) = outcome_of (run_statements fs b' s2)
        \<and> inputs_view (state_of (run_statements fs b s1)) = inputs_view (state_of (run_statements fs b' s2))
        \<and> bus_of (run_statements fs b s1) = b
        \<and> trackers (state_of (run_statements fs b s1)) = trackers s1"
        unfolding reads_inputs_only_def by blast
      with Done r1 r2 e b2 show ?thesis by simp
    next
      case (Raised x)
      with r1 r2 e b2 show ?thesis by (simp add: outcome_of_def bus_of_def state_of_def)
    qed
  qed
qed

lemma sensor_part_reads:
  assumes "sensor_part b = sensor_part b'"
  shows "resolve b = resolve b'"
    and "get_dbus_value b n TEMPERATURE_PATH = get_dbus_value b' n TEMPERATURE_PATH"
    and "get_dbus_value b n ALTITUDE_PATH = get_dbus_value b' n ALTITUDE_PATH"
    and "get_dbus_value b n STATE_PATH = get_dbus_value b' n STATE_PATH"
  using assms
  by (auto simp: sensor_part_def get_dbus_value_def fun_eq_iff split: option.splits)


lemma inputs_viewD:
  assumes "inputs_view s = inputs_view t"
  shows "vebus_service s = vebus_service t"
      "outdoor_temp_service_name s = outdoor_temp_service_name t"
      "generator_temp_service_name s = generator_temp_service_name t"
      "gps_service_name s = gps_service_name t"
      "transfer_switch_service s = transfer_switch_service t"
      "gen_auto_current_service s = gen_auto_current_service t"
      "gen_auto_current_state s = gen_auto_current_state t"
      "outdoor_temp_fahrenheit s = outdoor_temp_fahrenheit t"
      "altitude_feet s = altitude_feet t"
      "generator_temp_fahrenheit s = generator_temp_fahrenheit t"
  using assms by (simp_all add: inputs_view_def)

lemma reads_inputs_onlyI:
  assumes "\<And>b s. bus_of (f b s) = b"
    and "\<And>b s. trackers (state_of (f b s)) = trackers s"
    and "\<And>b b' s t. sensor_part b = sensor_part b' \<Longrightarrow> inputs_view s = inputs_view t \<Longrightarrow>
           outcome_of (f b s) = outcome_of (f b' t)"
    and "\<And>b b' s t. sensor_part b = sensor_part b' \<Longrightarrow> inputs_view s = inputs_view t \<Longrightarrow>
           inputs_view (state_of (f b s)) = inputs_view (state_of (f b' t))"
  shows "reads_inputs_only f"
  unfolding reads_inputs_only_def using assms by blast

lemma rediscover_view:
  "inputs_view (state_of (rediscover b s)) =
     ((service_in_tick (vebus_service s) (resolve b Vebus),
       service_in_tick (outdoor_temp_service_name s) (resolve b OutdoorTemp),
       service_in_tick (generator_temp_service_name s) (resolve b GeneratorTemp),
       service_in_tick (gps_service_name s) (resolve b Gps),
       service_in_tick (transfer_switch_service s) (resolve b TransferSwitch),
       service_in_tick (gen_auto_current_service s) (resolve b GenAutoCurrent)),
      gen_auto_current_state s, outdoor_temp_fahrenheit s, altitude_feet s,
      generator_temp_fahrenheit s)"
proof -
  have "vebus_service (state_of (rediscover b s)) = service_in_tick (vebus_service s) (resolve b Vebus)"
    "transfer_switch_service (state_of (rediscover b s))
       = service_in_tick (transfer_switch_service s) (resolve b TransferSwitch)"
    "gen_auto_current_service (state_of (rediscover b s))
       = service_in_tick (gen_auto_current_service s) (resolve b GenAutoCurrent)"
    "gen_auto_current_state (state_of (rediscover b s)) = gen_auto_current_state s"
    by (simp_all add: rediscover_def bus_of_def state_of_def Let_def find_service_once_def
        service_in_tick_def
        find_vebus_service_def find_outdoor_temperature_service_def
        find_generator_temperature_service_def find_gps_service_internal_def
        find_transfer_switch_input_internal_def find_gen_auto_current_input_internal_def)
  then show ?thesis
    by (simp add: inputs_view_def rediscover_services rediscover_frame)
qed

lemma rediscover_trackers: "trackers (state_of (rediscover b s)) = trackers s"
  by (simp add: trackers_def rediscover_def bus_of_def state_of_def Let_def find_service_once_def
        find_vebus_service_def find_outdoor_temperature_service_def
        find_generator_temperature_service_def find_gps_service_internal_def
        find_transfer_switch_input_internal_def find_gen_auto_current_input_internal_def)

lemma reads_inputs_only_rediscover: "reads_inputs_only rediscover"
proof (rule reads_inputs_onlyI)
  fix b b' s t
  show "bus_of (rediscover b s) = b" by (rule rediscover_frame)
  show "trackers (state_of (rediscover b s)) = trackers s" by (rule rediscover_trackers)
  assume h: "sensor_part b = sensor_part b'" "inputs_view s = inputs_view t"
  show "outcome_of (rediscover b s) = outcome_of (rediscover b' t)" by (simp add: rediscover_Done)
  show "inputs_view (state_of (rediscover b s)) = inputs_view (state_of (rediscover b' t))"
    by (simp add: rediscover_view sensor_part_reads(1)[OF h(1)] inputs_viewD[OF h(2)])
qed


lemma reads_inputs_only_outdoor: "reads_inputs_only (update_outdoor_temperature lu li)"
proof (rule reads_inputs_onlyI)
  fix b b' s t
  show "bus_of (update_outdoor_temperature lu li b s) = b"
    by (simp add: update_outdoor_temperature_def Let_def bus_of_def split: option.splits sum.splits)
  show "trackers (state_of (update_outdoor_temperature lu li b s)) = trackers s"
    by (simp add: update_outdoor_temperature_def Let_def state_of_def trackers_def split: option.splits sum.splits)
  assume h: "sensor_part b = sensor_part b'" "inputs_view s = inputs_view t"
  note v = inputs_viewD[OF h(2)]
  have g: "get_dbus_value b (outdoor_temp_service_name t) TEMPERATURE_PATH = get_dbus_value b' (outdoor_temp_service_name t) TEMPERATURE_PATH"
    by (rule sensor_part_reads[OF h(1)])
  show "outcome_of (update_outdoor_temperature lu li b s) = outcome_of (update_outdoor_temperature lu li b' t)"
    by (simp add: update_outdoor_temperature_def Let_def outcome_of_def v g split: option.splits sum.splits)
  show "inputs_view (state_of (update_outdoor_temperature lu li b s)) = inputs_view (state_of (update_outdoor_temperature lu li b' t))"
    by (simp add: update_outdoor_temperature_def Let_def state_of_def inputs_view_def v g split: option.splits sum.splits)
qed

lemma reads_inputs_only_generator: "reads_inputs_only (update_generator_temperature lu li)"
proof (rule reads_inputs_onlyI)
  fix b b' s t
  show "bus_of (update_generator_temperature lu li b s) = b"
    by (simp add: update_generator_temperature_def Let_def bus_of_def split: option.splits sum.splits)
  show "trackers (state_of (update_generator_temperature lu li b s)) = trackers s"
    by (simp add: update_generator_temperature_def Let_def state_of_def trackers_def split: option.splits sum.splits)
  assume h: "sensor_part b = sensor_part b'" "inputs_view s = inputs_view t"
  note v = inputs_viewD[OF h(2)]
  have g: "get_dbus_value b (generator_temp_service_name t) TEMPERATURE_PATH = get_dbus_value b' (generator_temp_service_name t) TEMPERATURE_PATH"
    by (rule sensor_part_reads[OF h(1)])
  show "outcome_of (update_generator_temperature lu li b s) = outcome_of (update_generator_temperature lu li b' t)"
    by (simp add: update_generator_temperature_def Let_def outcome_of_def v g split: option.splits sum.splits)
  show "inputs_view (state_of (update_generator_temperature lu li b s)) = inputs_view (state_of (update_generator_temperature lu li b' t))"
    by (simp add: update_generator_temperature_def Let_def state_of_def inputs_view_def v g split: option.splits sum.splits)
qed

lemma reads_inputs_only_auto: "reads_inputs_only (update_gen_auto_current_state ir)"
proof (rule reads_inputs_onlyI)
  fix b b' s t
  show "bus_of (update_gen_auto_current_state ir b s) = b"
    by (simp add: update_gen_auto_current_state_def bus_of_def split: option.splits sum.splits)
  show "trackers (state_of (update_gen_auto_current_state ir b s)) = trackers s"
    by (simp add: update_gen_auto_current_state_def state_of_def trackers_def split: option.splits sum.splits)
  assume h: "sensor_part b = sensor_part b'" "inputs_view s = inputs_view t"
  note v = inputs_viewD[OF h(2)]
  have g: "get_dbus_value b (gen_auto_current_service t) STATE_PATH = get_dbus_value b' (gen_auto_current_service t) STATE_PATH"
    by (rule sensor_part_reads[OF h(1)])
  show "outcome_of (update_gen_auto_current_state ir b s) = outcome_of (update_gen_auto_current_state ir b' t)"
    by (simp add: update_gen_auto_current_state_def outcome_of_def v g split: option.splits sum.splits)
  show "inputs_view (state_of (update_gen_auto_current_state ir b s)) = inputs_view (state_of (update_gen_auto_current_state ir b' t))"
    by (simp add: update_gen_auto_current_state_def state_of_def inputs_view_def v g split: option.splits sum.splits)
qed


lemma altitude_helpers:
  "inputs_view (altitude_failed s) = inputs_view s"
  "trackers (altitude_failed s) = trackers s"
  "inputs_view (altitude_store lu li m s) = inputs_view (s\<lparr>altitude_feet := Some (m * 3.28084)\<rparr>)"
  "trackers (altitude_store lu li m s) = trackers s"
  "inputs_view (s\<lparr>altitude_value_logged_after_warning := x\<rparr>) = inputs_view s"
  "trackers (s\<lparr>altitude_value_logged_after_warning := x\<rparr>) = trackers s"
  by (simp_all add: altitude_failed_def altitude_store_def inputs_view_def trackers_def Let_def)

lemma inputs_view_altitude_cong:
  "inputs_view s = inputs_view t \<Longrightarrow>
   inputs_view (s\<lparr>altitude_feet := a\<rparr>) = inputs_view (t\<lparr>altitude_feet := a\<rparr>)"
  by (simp add: inputs_view_def)

lemma reads_inputs_only_altitude: "reads_inputs_only (update_altitude lu li)"
proof (rule reads_inputs_onlyI)
  fix b b' s t
  show "bus_of (update_altitude lu li b s) = b"
    by (rule update_altitude_frame)
  show "trackers (state_of (update_altitude lu li b s)) = trackers s"
    by (simp add: update_altitude_def state_of_def altitude_helpers
          split: option.splits sum.splits dval.splits list.splits)
  assume h: "sensor_part b = sensor_part b'" "inputs_view s = inputs_view t"
  note v = inputs_viewD[OF h(2)]
  have g: "get_dbus_value b (gps_service_name t) ALTITUDE_PATH
             = get_dbus_value b' (gps_service_name t) ALTITUDE_PATH"
    by (rule sensor_part_reads[OF h(1)])
  show "outcome_of (update_altitude lu li b s) = outcome_of (update_altitude lu li b' t)"
    by (simp add: update_altitude_outcome)
  show "inputs_view (state_of (update_altitude lu li b s))
          = inputs_view (state_of (update_altitude lu li b' t))"
    by (simp add: update_altitude_def state_of_def altitude_helpers v(4) g h(2)
          inputs_view_altitude_cong[OF h(2)]
          split: option.splits sum.splits dval.splits list.splits)
qed

lemma reads_inputs_only_refresh: "reads_inputs_only refresh_readings"
  unfolding refresh_readings_def
  by (rule reads_inputs_only_run)
     (simp add: reads_inputs_only_rediscover reads_inputs_only_outdoor reads_inputs_only_altitude
        reads_inputs_only_generator reads_inputs_only_auto)


lemma steady_alt:
  "steady b s =
     (outcome_of (refresh_readings b s) = Done
      \<and> inputs_view (state_of (refresh_readings b s)) = inputs_view s)"
  by (cases "refresh_readings b s")
     (auto simp: steady_def outcome_of_def state_of_def split: outcome.splits)

lemma steady_cong:
  assumes "sensor_part b' = sensor_part b" and "inputs_view t = inputs_view s"
  shows "steady b' t = steady b s"
proof -
  from reads_inputs_only_refresh assms
  have "outcome_of (refresh_readings b' t) = outcome_of (refresh_readings b s)
        \<and> inputs_view (state_of (refresh_readings b' t))
            = inputs_view (state_of (refresh_readings b s))"
    unfolding reads_inputs_only_def by blast
  with assms(2) show ?thesis by (simp add: steady_alt)
qed

lemma steady_refresh:
  assumes "steady b s"
  obtains sr where "refresh_readings b s = (Done, b, sr)"
    and "inputs_view sr = inputs_view s" and "trackers sr = trackers s"
proof -
  from reads_inputs_only_refresh
  have t: "trackers (state_of (refresh_readings b s)) = trackers s"
    unfolding reads_inputs_only_def by blast
  obtain out b1 sr where r: "refresh_readings b s = (out, b1, sr)"
    by (cases "refresh_readings b s") auto
  from r have b1: "b1 = b" by (rule refresh_readings_DoneD)
  from assms r have "out = Done" "inputs_view sr = inputs_view s"
    by (simp_all add: steady_alt outcome_of_def state_of_def)
  moreover from t r have "trackers sr = trackers s" by (simp add: state_of_def)
  ultimately show ?thesis using r b1 that by simp
qed

lemma trackersD:
  assumes "trackers s' = trackers s"
  shows "previous_ac_current_limit s' = previous_ac_current_limit s"
    and "previous_generator_current_limit_setting s' = previous_generator_current_limit_setting s"
    and "initial_derated_output_logged s' = initial_derated_output_logged s"
  using assms by (simp_all add: trackers_def)

lemma running_cong:
  assumes "sensor_part b' = sensor_part b" and "inputs_view s' = inputs_view s"
  shows "is_generator_running b' s' = is_generator_running b s"
  by (simp add: is_generator_running_def inputs_viewD[OF assms(2)] sensor_part_reads[OF assms(1)])

lemma guard_part_cong:
  assumes "sensor_part b' = sensor_part b" and "inputs_view s' = inputs_view s"
    and "accepts b' = accepts b"
  shows "guard_part b' s' = guard_part b s"
  by (simp add: guard_part_def running_cong[OF assms(1,2)] inputs_viewD[OF assms(2)] assms(3))

lemma sensor_part_set_dbus_value [simp]:
  "sensor_part (set_dbus_value b n AC_ACTIVE_INPUT_CURRENT_LIMIT_PATH v) = sensor_part b"
  "sensor_part (set_dbus_value b n GENERATOR_CURRENT_LIMIT_PATH v) = sensor_part b"
  by (auto simp: sensor_part_def set_dbus_value_def path_defs fun_eq_iff split: option.splits)

lemma external_ac_write_frame [simp]:
  "sensor_part (external_ac_write n x b) = sensor_part b"
  "accepts (external_ac_write n x b) = accepts b"
  "write_log (external_ac_write n x b) = write_log b"
  "gen_limit_value (external_ac_write n x b) = gen_limit_value b"
  by (auto simp: sensor_part_def external_ac_write_def path_defs fun_eq_iff gen_limit_value_def
        get_dbus_value_def)


lemma inputs_view_trackers [simp]:
  "inputs_view (s\<lparr>previous_ac_current_limit := x\<rparr>) = inputs_view s"
  "inputs_view (s\<lparr>previous_generator_current_limit_setting := y\<rparr>) = inputs_view s"
  "inputs_view (s\<lparr>initial_derated_output_logged := z\<rparr>) = inputs_view s"
  by (simp_all add: inputs_view_def)


lemma numeric_py:
  assumes "numeric_or_absent (Some g)"
  obtains y where "py_float g = Inr y" and "\<And>r. py_sub g r = Inr (y - r)"
  using assms by (cases g) auto


lemma gen_limit_after_write:
  "gen_limit_value (set_dbus_value b (Some SETTINGS_SERVICE_NAME) GENERATOR_CURRENT_LIMIT_PATH v) =
     (if accepts b (SETTINGS_SERVICE_NAME, GENERATOR_CURRENT_LIMIT_PATH) then Some (DDouble v)
      else gen_limit_value b)"
  by (simp add: gen_limit_value_def get_after_set truthy_def)

lemma write_log_after_write:
  "truthy n \<Longrightarrow> write_log (set_dbus_value b n p v) = write_log b @ [(the n, p, v)]"
  by (auto simp: set_dbus_value_def truthy_def split: option.splits)

lemma derated_output_view:
  "inputs_view s' = inputs_view s \<Longrightarrow> derated_output s' = derated_output s"
  by (simp add: derated_output_def inputs_view_def)

lemma sync_to_Done:
  assumes "numeric_or_absent (gen_limit_value b)"
  obtains b' s' where "sync_generator_limit_to_ac_input b s = (Done, b', s')"
proof (cases "gen_limit_value b")
  case None
  then have "sync_generator_limit_to_ac_input b s = (Done, b, s)" by (simp add: sync_to_unfold)
  then show ?thesis by (rule that)
next
  case (Some g)
  with assms obtain y where "py_float g = Inr y" by (auto elim: numeric_py)
  with Some have "\<exists>b' s'. sync_generator_limit_to_ac_input b s = (Done, b', s')"
    by (simp add: sync_to_unfold)
  then show ?thesis using that by blast
qed

lemma perform_derating_Done:
  assumes "numeric_or_absent (gen_limit_value b)"
  obtains b' s' where "perform_derating b s = (Done, b', s')"
proof (cases "gen_limit_value b")
  case None
  then have "\<exists>b' s'. perform_derating b s = (Done, b', s')" by (simp add: perform_derating_unfold)
  then show ?thesis using that by blast
next
  case (Some g)
  with assms obtain y where "\<And>r. py_sub g r = Inr (y - r)" by (auto elim: numeric_py)
  with Some have "\<exists>b' s'. perform_derating b s = (Done, b', s')"
    by (simp add: perform_derating_unfold)
  then show ?thesis using that by blast
qed

lemma sync_to_writes:
  assumes "sync_generator_limit_to_ac_input b s = (Done, b', s')"
  obtains ws where "write_log b' = write_log b @ ws" and "filter to_generator_limit ws = []"
    and "length ws \<le> 1" and "list_all to_ac_input_limit ws"
    and "sensor_part b' = sensor_part b" and "inputs_view s' = inputs_view s"
    and "accepts b' = accepts b"
  using assms
proof (cases rule: sync_to_cases)
  case quiet
  then show ?thesis by (intro that[of "[]"]) simp_all
next
  case (push g x)
  from push(2) have t: "truthy (vebus_service s)" by (simp add: sync_enabled_def)
  show ?thesis
    by (intro that[of "[(the (vebus_service s), AC_ACTIVE_INPUT_CURRENT_LIMIT_PATH, py_round1 x)]"])
       (simp_all add: push(5,6) write_log_after_write[OF t] to_ac_input_limit_def)
qed

lemma perform_derating_writes_log:
  assumes "perform_derating b s = (Done, b', s')"
  obtains ws where "write_log b' = write_log b @ ws"
    and "ws = [] \<or> ws = [(SETTINGS_SERVICE_NAME, GENERATOR_CURRENT_LIMIT_PATH, derated_output s)]"
    and "sensor_part b' = sensor_part b" and "inputs_view s' = inputs_view s"
    and "accepts b' = accepts b"
    and "numeric_or_absent (gen_limit_value b) \<longrightarrow> numeric_or_absent (gen_limit_value b')"
  using assms
proof (cases rule: perform_derating_cases)
  case quiet
  then show ?thesis by (intro that[of "[]"]) simp_all
next
  case wrote
  show ?thesis
    by (intro that[of "[(SETTINGS_SERVICE_NAME, GENERATOR_CURRENT_LIMIT_PATH, derated_output s)]"])
       (simp_all add: wrote(2,3) write_log_after_write truthy_def gen_limit_after_write)
qed


lemma on_tick:
  assumes st: "steady b s"
    and on: "gen_auto_current_state s = Some GEN_AUTO_CURRENT_ON"
    and num: "numeric_or_absent (gen_limit_value b)"
  obtains b' s' ws where
    "periodic_monitoring (external_ac_write n x b) s = (Done, b', s')"
    and "steady b' s'" and "gen_auto_current_state s' = Some GEN_AUTO_CURRENT_ON"
    and "numeric_or_absent (gen_limit_value b')"
    and "inputs_view s' = inputs_view s" and "accepts b' = accepts b"
    and "write_log b' = write_log b @ ws"
    and "filter to_generator_limit ws = []
         \<or> filter to_generator_limit ws
              = [(SETTINGS_SERVICE_NAME, GENERATOR_CURRENT_LIMIT_PATH, derated_output s)]"
    and "accepts b (SETTINGS_SERVICE_NAME, GENERATOR_CURRENT_LIMIT_PATH) \<longrightarrow> step3_quiet b' s'"
    and "step3_quiet b s \<longrightarrow> step3_quiet b' s' \<and> filter to_generator_limit ws = []"
proof -
  let ?be = "external_ac_write n x b"
  have ste: "steady ?be s" using st by (simp add: steady_cong[of ?be b s s])
  from steady_refresh[OF ste] obtain sr where
    r: "refresh_readings ?be s = (Done, ?be, sr)" and vr: "inputs_view sr = inputs_view s"
    and tr: "trackers sr = trackers s" .
  have nume: "numeric_or_absent (gen_limit_value ?be)" using num by simp
  from sync_to_Done[OF nume] obtain b1 s1 where
    a: "sync_generator_limit_to_ac_input ?be sr = (Done, b1, s1)" .
  from sync_to_writes[OF a] obtain ws1 where
    w1: "write_log b1 = write_log ?be @ ws1" "filter to_generator_limit ws1 = []"
      "sensor_part b1 = sensor_part ?be" "inputs_view s1 = inputs_view sr"
      "accepts b1 = accepts ?be"
    by blast
  note p1 = sync_to_post[OF a]
  have on1: "gen_auto_current_state s1 = Some GEN_AUTO_CURRENT_ON"
    using inputs_viewD(7)[OF w1(4)] inputs_viewD(7)[OF vr] on by simp
  have num1: "numeric_or_absent (gen_limit_value b1)" using nume p1(3) by simp
  from perform_derating_Done[OF num1] obtain b' s' where
    d: "perform_derating b1 s1 = (Done, b', s')" .
  from perform_derating_writes_log[OF d] obtain ws3 where
    w3: "write_log b' = write_log b1 @ ws3"
      "ws3 = [] \<or> ws3 = [(SETTINGS_SERVICE_NAME, GENERATOR_CURRENT_LIMIT_PATH, derated_output s1)]"
      "sensor_part b' = sensor_part b1" "inputs_view s' = inputs_view s1"
      "accepts b' = accepts b1"
      "numeric_or_absent (gen_limit_value b1) \<longrightarrow> numeric_or_absent (gen_limit_value b')"
    by blast
  have pm: "periodic_monitoring ?be s = (Done, b', s')"
    by (simp add: periodic_monitoring_split r limit_synchronizer_unfold a sync_from_if_off_eq on1
          perform_derating_if_on_def d)
  have v': "inputs_view s' = inputs_view s" using w3(4) w1(4) vr by simp
  have sp: "sensor_part b' = sensor_part b" using w3(3) w1(3) by simp
  have st': "steady b' s'" using st steady_cong[OF sp v'] by simp
  have on': "gen_auto_current_state s' = Some GEN_AUTO_CURRENT_ON"
    using inputs_viewD(7)[OF v'] on by simp
  have dd: "derated_output s1 = derated_output s"
    by (rule derated_output_view) (simp add: w1(4) vr)
  have wl: "write_log b' = write_log b @ (ws1 @ ws3)" using w1(1) w3(1) by simp
  have f: "filter to_generator_limit (ws1 @ ws3) = []
         \<or> filter to_generator_limit (ws1 @ ws3)
              = [(SETTINGS_SERVICE_NAME, GENERATOR_CURRENT_LIMIT_PATH, derated_output s)]"
    using w1(2) w3(2) dd by (auto simp: to_generator_limit_def)
  have acc': "accepts b' = accepts b" using w3(5) w1(5) by simp
  have q3a: "step3_quiet b' s'"
    if "accepts b (SETTINGS_SERVICE_NAME, GENERATOR_CURRENT_LIMIT_PATH)"
    using perform_derating_post(3)[OF d] that w1(5) by simp
  have q3b: "step3_quiet b' s' \<and> filter to_generator_limit (ws1 @ ws3) = []" if q: "step3_quiet b s"
  proof -
    have g: "guard_part ?be sr = guard_part b s"
      by (rule guard_part_cong) (simp_all add: vr)
    have "step3_quiet ?be sr = step3_quiet b s"
      by (rule step3_quiet_cong[OF g]) (simp_all add: trackersD[OF tr])
    moreover have "step3_quiet b1 s1 = step3_quiet ?be sr"
      by (rule step3_quiet_cong[OF p1(2) p1(3) p1(4)])
    ultimately have q1: "step3_quiet b1 s1" using q by simp
    with d have e: "b' = b1" "s' = s1" by (simp_all add: step3_quietD)
    with w3(1) have "ws3 = []" by simp
    with q1 e w1(2) show ?thesis by simp
  qed
  show ?thesis
    by (rule that[OF pm st' on' w3(6)[rule_format, OF num1] v' acc' wl f]) (use q3a q3b in blast)+
qed


lemma on_run:
  assumes "steady b s" and "gen_auto_current_state s = Some GEN_AUTO_CURRENT_ON"
    and "numeric_or_absent (gen_limit_value b)"
  shows "\<exists>b' s' ws. run_ticks (replicate k (external_ac_write n x)) b s = (Done, b', s')
      \<and> write_log b' = write_log b @ ws
      \<and> set (filter to_generator_limit ws)
          \<subseteq> {(SETTINGS_SERVICE_NAME, GENERATOR_CURRENT_LIMIT_PATH, derated_output s)}
      \<and> (accepts b (SETTINGS_SERVICE_NAME, GENERATOR_CURRENT_LIMIT_PATH) \<longrightarrow>
           length (filter to_generator_limit ws) \<le> 1)
      \<and> (step3_quiet b s \<longrightarrow> filter to_generator_limit ws = [])"
  using assms
proof (induction k arbitrary: b s)
  case 0
  show ?case by (rule exI[of _ b], rule exI[of _ s], rule exI[of _ "[]"]) simp
next
  case (Suc k)
  from on_tick[OF Suc.prems, of n x] obtain b1 s1 ws1 where
    t: "periodic_monitoring (external_ac_write n x b) s = (Done, b1, s1)"
      "steady b1 s1" "gen_auto_current_state s1 = Some GEN_AUTO_CURRENT_ON"
      "numeric_or_absent (gen_limit_value b1)"
      "inputs_view s1 = inputs_view s" "accepts b1 = accepts b"
      "write_log b1 = write_log b @ ws1"
      "filter to_generator_limit ws1 = []
         \<or> filter to_generator_limit ws1
              = [(SETTINGS_SERVICE_NAME, GENERATOR_CURRENT_LIMIT_PATH, derated_output s)]"
      "accepts b (SETTINGS_SERVICE_NAME, GENERATOR_CURRENT_LIMIT_PATH) \<longrightarrow> step3_quiet b1 s1"
      "step3_quiet b s \<longrightarrow> step3_quiet b1 s1 \<and> filter to_generator_limit ws1 = []"
    by blast
  from Suc.IH[OF t(2) t(3) t(4)] obtain b' s' ws2 where
    i: "run_ticks (replicate k (external_ac_write n x)) b1 s1 = (Done, b', s')"
      "write_log b' = write_log b1 @ ws2"
      "set (filter to_generator_limit ws2)
          \<subseteq> {(SETTINGS_SERVICE_NAME, GENERATOR_CURRENT_LIMIT_PATH, derated_output s1)}"
      "step3_quiet b1 s1 \<longrightarrow> filter to_generator_limit ws2 = []"
    by blast
  have dd: "derated_output s1 = derated_output s" by (rule derated_output_view[OF t(5)])
  have r: "run_ticks (replicate (Suc k) (external_ac_write n x)) b s = (Done, b', s')"
    by (simp add: t(1) i(1))
  have wl: "write_log b' = write_log b @ (ws1 @ ws2)" using t(7) i(2) by simp
  have g1: "set (A @ B) \<subseteq> {d}" if "A = [] \<or> A = [d]" "set B \<subseteq> {d}"
    for A B :: "(string \<times> string \<times> real) list" and d
    using that by auto
  have g2: "length (A @ B) \<le> 1" if "A = [] \<or> A = [d]" "B = []"
    for A B :: "(string \<times> string \<times> real) list" and d
    using that by auto
  have c1: "set (filter to_generator_limit (ws1 @ ws2))
          \<subseteq> {(SETTINGS_SERVICE_NAME, GENERATOR_CURRENT_LIMIT_PATH, derated_output s)}"
    unfolding filter_append by (rule g1[OF t(8) i(3)[unfolded dd]])
  have c2: "length (filter to_generator_limit (ws1 @ ws2)) \<le> 1"
    if "accepts b (SETTINGS_SERVICE_NAME, GENERATOR_CURRENT_LIMIT_PATH)"
  proof -
    from that t(9) i(4) have "filter to_generator_limit ws2 = []" by blast
    then show ?thesis unfolding filter_append by (rule g2[OF t(8)])
  qed
  have c3: "filter to_generator_limit (ws1 @ ws2) = []" if "step3_quiet b s"
  proof -
    from that t(10) i(4) have "filter to_generator_limit ws1 = []" "filter to_generator_limit ws2 = []"
      by blast+
    then show ?thesis unfolding filter_append by simp
  qed
  from r wl c1 c2 c3 show ?case by blast
qed

lemma new_writes_append: "write_log b' = write_log b @ ws \<Longrightarrow> new_writes b b' = ws"
  by (simp add: new_writes_def)

lemma on_tick_is_derating:
  assumes "refresh_readings b0 s0 = (Done, b1, s1)"
    and "gen_auto_current_state s1 = Some GEN_AUTO_CURRENT_ON"
    and "sync_generator_limit_to_ac_input b1 s1 = (Done, b2, s2)"
  shows "periodic_monitoring b0 s0 = perform_derating b2 s2"
proof -
  have "gen_auto_current_state s2 = Some GEN_AUTO_CURRENT_ON"
    using guard_mode[OF sync_to_post(2)[OF assms(3)]] assms(2) by simp
  then show ?thesis
    by (simp add: periodic_monitoring_split assms(1,3) limit_synchronizer_unfold
          sync_from_if_off_eq perform_derating_if_on_def)
qed

text \<open>
  Claim C1. Whenever the stored auto-mode state is ON, the guarded step 2 writes nothing
  and changes nothing, on any bus and whatever the AC input limit and the recorded
  previous limits are. In a tick whose readings leave auto-mode ON, nothing before the
  derating writes to the generator limit setting, and the tick ends as the derating step
  does. Consequently, from steady readings with auto-mode ON and a generator limit
  setting that is absent or a number, let an external actor write the AC input limit
  of any service to a fixed value before each of any number of ticks: every tick
  returns, every write the setting receives carries the derated output of the stored
  sample (the derating step's value, the same on every tick), and on a bus that accepts
  the write the setting receives at most one write in the whole run.
\<close>

theorem C1_auto_on_generator_limit_stable:
  assumes "steady b s"
    and "gen_auto_current_state s = Some GEN_AUTO_CURRENT_ON"
    and "numeric_or_absent (gen_limit_value b)"
  shows "(gen_auto_current_state t = Some GEN_AUTO_CURRENT_ON \<longrightarrow>
            sync_from_ac_input_if_off b0 t = (Done, b0, t))
       \<and> (refresh_readings b0 s0 = (Done, b1, s1)
            \<and> gen_auto_current_state s1 = Some GEN_AUTO_CURRENT_ON
            \<and> sync_generator_limit_to_ac_input b1 s1 = (Done, b2, s2) \<longrightarrow>
          filter to_generator_limit (new_writes b0 b2) = []
          \<and> periodic_monitoring b0 s0 = perform_derating b2 s2)
       \<and> outcome_of (run_ticks (replicate k (external_ac_write n x)) b s) = Done
       \<and> set (filter to_generator_limit
                 (new_writes b (bus_of (run_ticks (replicate k (external_ac_write n x)) b s))))
           \<subseteq> {(SETTINGS_SERVICE_NAME, GENERATOR_CURRENT_LIMIT_PATH, derated_output s)}
       \<and> (accepts b (SETTINGS_SERVICE_NAME, GENERATOR_CURRENT_LIMIT_PATH) \<longrightarrow>
            length (filter to_generator_limit
                      (new_writes b (bus_of (run_ticks (replicate k (external_ac_write n x)) b s))))
              \<le> 1)"
proof -
  have a: "sync_from_ac_input_if_off b0 t = (Done, b0, t)"
    if "gen_auto_current_state t = Some GEN_AUTO_CURRENT_ON"
    using that by (simp add: sync_from_if_off_eq)
  have c: "filter to_generator_limit (new_writes b0 b2) = []
          \<and> periodic_monitoring b0 s0 = perform_derating b2 s2"
    if h: "refresh_readings b0 s0 = (Done, b1, s1)
            \<and> gen_auto_current_state s1 = Some GEN_AUTO_CURRENT_ON
            \<and> sync_generator_limit_to_ac_input b1 s1 = (Done, b2, s2)"
  proof -
    from h have r: "refresh_readings b0 s0 = (Done, b1, s1)"
      and m: "gen_auto_current_state s1 = Some GEN_AUTO_CURRENT_ON"
      and q: "sync_generator_limit_to_ac_input b1 s1 = (Done, b2, s2)" by simp_all
    have b1: "b1 = b0" using r by (rule refresh_readings_DoneD)
    from sync_to_writes[OF q] obtain ws where
      "write_log b2 = write_log b1 @ ws" "filter to_generator_limit ws = []" by blast
    with b1 have "filter to_generator_limit (new_writes b0 b2) = []"
      by (simp add: new_writes_append)
    with on_tick_is_derating[OF r m q] show ?thesis by simp
  qed
  from on_run[OF assms, of k n x] obtain b' s' ws where
    r: "run_ticks (replicate k (external_ac_write n x)) b s = (Done, b', s')"
      "write_log b' = write_log b @ ws"
      "set (filter to_generator_limit ws)
          \<subseteq> {(SETTINGS_SERVICE_NAME, GENERATOR_CURRENT_LIMIT_PATH, derated_output s)}"
      "accepts b (SETTINGS_SERVICE_NAME, GENERATOR_CURRENT_LIMIT_PATH) \<longrightarrow>
           length (filter to_generator_limit ws) \<le> 1"
    by blast
  have n: "new_writes b b' = ws" by (rule new_writes_append[OF r(2)])
  from a c r(3,4) show ?thesis
    by (simp add: r(1) outcome_of_def bus_of_def n)
qed


text \<open>
  Witness for C1: the example bus and object with auto-mode ON, the generator running,
  and the AC input limit written to 40 A before each of three ticks.
\<close>

theorem C1_auto_on_generator_limit_stable_witness:
  "sync_from_ac_input_if_off (demo_bus 3 50 40) (demo_state 3 50 50)
     = (Done, demo_bus 3 50 40, demo_state 3 50 50)
   \<and> periodic_monitoring (demo_bus 3 50 40) (demo_state 3 50 50)
       = perform_derating (demo_bus 3 50 40) (demo_state 3 50 50)
   \<and> outcome_of (run_ticks (replicate 3 (external_ac_write ''vebus'' 40))
                   (demo_bus 3 50 50) (demo_state 3 50 50)) = Done
   \<and> length (filter to_generator_limit
               (new_writes (demo_bus 3 50 50)
                  (bus_of (run_ticks (replicate 3 (external_ac_write ''vebus'' 40))
                             (demo_bus 3 50 50) (demo_state 3 50 50))))) \<le> 1"
proof -
  have st: "steady (demo_bus 3 50 50) (demo_state 3 50 50)"
    by (simp add: steady_def inputs_view_def eval_defs)
  have on: "gen_auto_current_state (demo_state 3 50 50) = Some GEN_AUTO_CURRENT_ON"
    by (simp add: demo_state_def GEN_AUTO_CURRENT_ON_def)
  have num: "numeric_or_absent (gen_limit_value (demo_bus 3 50 50))"
    by (simp add: gen_limit_value_def eval_defs)
  have acc: "accepts (demo_bus 3 50 50) (SETTINGS_SERVICE_NAME, GENERATOR_CURRENT_LIMIT_PATH)"
    by (simp add: demo_bus_def)
  have r: "refresh_readings (demo_bus 3 50 40) (demo_state 3 50 50)
             = (Done, demo_bus 3 50 40, demo_state 3 50 50)"
    by (simp add: eval_defs)
  have q: "sync_generator_limit_to_ac_input (demo_bus 3 50 40) (demo_state 3 50 50)
             = (Done, demo_bus 3 50 40, demo_state 3 50 50)"
    by (simp add: eval_defs)
  from C1_auto_on_generator_limit_stable [OF st on num,
      where t = "demo_state 3 50 50" and ?b0.0 = "demo_bus 3 50 40"
        and ?s0.0 = "demo_state 3 50 50" and ?b1.0 = "demo_bus 3 50 40"
        and ?s1.0 = "demo_state 3 50 50" and ?b2.0 = "demo_bus 3 50 40"
        and ?s2.0 = "demo_state 3 50 50" and k = 3 and n = "''vebus''" and x = 40]
    on acc r q
  show ?thesis by blast
qed

subsection \<open>A single change of the AC input limit\<close>














lemma generator_limit_write [simp]:
  "to_generator_limit (n, GENERATOR_CURRENT_LIMIT_PATH, v)"
  "\<not> to_ac_input_limit (n, GENERATOR_CURRENT_LIMIT_PATH, v)"
  by (simp_all add: to_generator_limit_def to_ac_input_limit_def)








end
